theory Spec2Isabelle
  imports Complex_Main "HOL-Library.Word"
begin

section \<open>Numbers\<close>

text \<open>
  The program computes with numpy's \<open>float64\<close>. A float is modelled as an exact real number
  or one of the three special values of IEEE 754 arithmetic that numpy produces instead of
  raising: dividing by zero gives an infinity (or NaN for \<open>0/0\<close>) and the square root of a
  negative number gives NaN. Rounding, overflow and the sign of zero are not modelled: a
  zero divisor counts as \<open>+0.0\<close>, which is what \<open>np.sqrt\<close> of a sum of squares returns.
\<close>

datatype npfloat = Fin real | PInf | NInf | NaN

fun is_finite :: "npfloat \<Rightarrow> bool" where
  "is_finite (Fin _) = True"
| "is_finite _ = False"

fun sign_of :: "npfloat \<Rightarrow> real" where
  "sign_of (Fin a) = sgn a"
| "sign_of PInf = 1"
| "sign_of NInf = - 1"
| "sign_of NaN = 0"

definition inf_of_sign :: "real \<Rightarrow> npfloat" where
  "inf_of_sign s = (if 0 < s then PInf else if s < 0 then NInf else NaN)"

instantiation npfloat :: "{zero, one, plus, uminus, minus, times, inverse, ord}"
begin

definition zero_npfloat :: npfloat where
  "zero_npfloat = Fin 0"

definition one_npfloat :: npfloat where
  "one_npfloat = Fin 1"

fun plus_npfloat :: "npfloat \<Rightarrow> npfloat \<Rightarrow> npfloat" where
  "plus_npfloat NaN _ = NaN"
| "plus_npfloat _ NaN = NaN"
| "plus_npfloat (Fin a) (Fin b) = Fin (a + b)"
| "plus_npfloat PInf NInf = NaN"
| "plus_npfloat NInf PInf = NaN"
| "plus_npfloat PInf _ = PInf"
| "plus_npfloat _ PInf = PInf"
| "plus_npfloat NInf _ = NInf"
| "plus_npfloat _ NInf = NInf"

fun uminus_npfloat :: "npfloat \<Rightarrow> npfloat" where
  "uminus_npfloat (Fin a) = Fin (- a)"
| "uminus_npfloat PInf = NInf"
| "uminus_npfloat NInf = PInf"
| "uminus_npfloat NaN = NaN"

definition minus_npfloat :: "npfloat \<Rightarrow> npfloat \<Rightarrow> npfloat" where
  "minus_npfloat a b = a + (- b)"

fun times_npfloat :: "npfloat \<Rightarrow> npfloat \<Rightarrow> npfloat" where
  "times_npfloat NaN _ = NaN"
| "times_npfloat _ NaN = NaN"
| "times_npfloat (Fin a) (Fin b) = Fin (a * b)"
| "times_npfloat a b = inf_of_sign (sign_of a * sign_of b)"

fun divide_npfloat :: "npfloat \<Rightarrow> npfloat \<Rightarrow> npfloat" where
  "divide_npfloat NaN _ = NaN"
| "divide_npfloat _ NaN = NaN"
| "divide_npfloat (Fin a) (Fin b) = (if b = 0 then inf_of_sign a else Fin (a / b))"
| "divide_npfloat (Fin a) _ = Fin 0"
| "divide_npfloat a (Fin b) = inf_of_sign (sign_of a * (if b < 0 then - 1 else 1))"
| "divide_npfloat _ _ = NaN"

fun inverse_npfloat :: "npfloat \<Rightarrow> npfloat" where
  "inverse_npfloat NaN = NaN"
| "inverse_npfloat (Fin b) = (if b = 0 then PInf else Fin (1 / b))"
| "inverse_npfloat _ = Fin 0"

fun less_eq_npfloat :: "npfloat \<Rightarrow> npfloat \<Rightarrow> bool" where
  "less_eq_npfloat NaN _ = False"
| "less_eq_npfloat _ NaN = False"
| "less_eq_npfloat (Fin a) (Fin b) = (a \<le> b)"
| "less_eq_npfloat NInf _ = True"
| "less_eq_npfloat _ PInf = True"
| "less_eq_npfloat _ _ = False"

fun less_npfloat :: "npfloat \<Rightarrow> npfloat \<Rightarrow> bool" where
  "less_npfloat NaN _ = False"
| "less_npfloat _ NaN = False"
| "less_npfloat (Fin a) (Fin b) = (a < b)"
| "less_npfloat PInf _ = False"
| "less_npfloat _ NInf = False"
| "less_npfloat _ _ = True"

instance ..

end

text \<open>\<open>np.sqrt\<close> and \<open>np.sin\<close> on a float.\<close>

fun np_sqrt :: "npfloat \<Rightarrow> npfloat" where
  "np_sqrt (Fin a) = (if a < 0 then NaN else Fin (sqrt a))"
| "np_sqrt PInf = PInf"
| "np_sqrt _ = NaN"

fun np_sin :: "npfloat \<Rightarrow> npfloat" where
  "np_sin (Fin a) = Fin (sin a)"
| "np_sin _ = NaN"

text \<open>\<open>x ** 2\<close> on a float multiplies the number with itself.\<close>

definition sq :: "npfloat \<Rightarrow> npfloat" where
  "sq a = a * a"

text \<open>The Euclidean distance of two points of the plane, which is what
  \<open>np.linalg.norm\<close> of their difference computes.\<close>

definition norm_diff :: "real \<times> real \<Rightarrow> real \<times> real \<Rightarrow> real" where
  "norm_diff p q = sqrt ((fst p - fst q)\<^sup>2 + (snd p - snd q)\<^sup>2)"

section \<open>Geometry utilities (\<open>rom_plumes/utils.py\<close>)\<close>

text \<open>
  \<open>circle_intersection\<close>: the radical-line construction. The returned \<open>2 \<times> 2\<close> array is the
  list of its two rows.
\<close>

definition circle_intersection ::
  "npfloat \<Rightarrow> npfloat \<Rightarrow> npfloat \<Rightarrow> npfloat \<Rightarrow> npfloat \<Rightarrow> npfloat \<Rightarrow> (npfloat \<times> npfloat) list" where
  "circle_intersection x0 y0 r0 x1 y1 r1 =
     (let d = np_sqrt (sq (x0 - x1) + sq (y0 - y1));
          L = (sq r0 - sq r1 + sq d) / (Fin 2 * d);
          h = np_sqrt (sq r0 - sq L);
          x3 = L / d * (x1 - x0) - h / d * (y1 - y0) + x0;
          y3 = L / d * (y1 - y0) + h / d * (x1 - x0) + y0;
          x4 = L / d * (x1 - x0) + h / d * (y1 - y0) + x0;
          y4 = L / d * (y1 - y0) - h / d * (x1 - x0) + y0
      in [(x3, y3), (x4, y4)])"

text \<open>
  The formulas for \<open>(x3, y3)\<close> over the reals, used to name the two points in the proofs;
  \<open>(x4, y4)\<close> is the same point for \<open>- h\<close>.
\<close>

definition chord_point :: "real \<Rightarrow> real \<Rightarrow> real \<Rightarrow> real \<Rightarrow> real \<Rightarrow> real \<Rightarrow> real \<Rightarrow> real \<times> real" where
  "chord_point x0 y0 x1 y1 d L h =
     (L / d * (x1 - x0) - h / d * (y1 - y0) + x0, L / d * (y1 - y0) + h / d * (x1 - x0) + y0)"

text \<open>
  The exceptions the modelled code can raise. \<open>OtherError\<close> stands for any exception
  class not named here.
\<close>

datatype py_error =
  IndexError | ValueError | TypeError | LinAlgError | UnboundLocalError | OtherError

text \<open>
  \<open>_square_poly_coef\<close> and \<open>circle_poly_intersection\<close> take Python numbers, and whether a
  number is an \<open>int\<close> or a \<open>float\<close> decides the dtype of the arrays numpy builds from them.
  A Python \<open>float\<close> is a real number here (the functions only add and multiply), a Python
  \<open>int\<close> an integer. The entries of an \<open>int64\<close> array are integers too: the model is for
  inputs on which the sums of products stay inside \<open>int64\<close>; beyond it numpy wraps or
  changes the dtype, which is not modelled.
\<close>

datatype py_num = PyInt int | PyFloat real

fun as_float :: "py_num \<Rightarrow> real" where
  "as_float (PyInt a) = real_of_int a"
| "as_float (PyFloat a) = a"

fun is_int :: "py_num \<Rightarrow> bool" where
  "is_int (PyInt a) = True"
| "is_int (PyFloat a) = False"

fun the_int :: "py_num \<Rightarrow> int" where
  "the_int (PyInt a) = a"
| "the_int (PyFloat a) = 0"

text \<open>Python's \<open>*\<close>, \<open>+\<close> and \<open>-\<close> on numbers: two ints give an int, otherwise the result is a
  float. \<open>x ** 2\<close> keeps the type of \<open>x\<close>.\<close>

fun py_mul :: "py_num \<Rightarrow> py_num \<Rightarrow> py_num" where
  "py_mul (PyInt a) (PyInt b) = PyInt (a * b)"
| "py_mul a b = PyFloat (as_float a * as_float b)"

fun py_add :: "py_num \<Rightarrow> py_num \<Rightarrow> py_num" where
  "py_add (PyInt a) (PyInt b) = PyInt (a + b)"
| "py_add a b = PyFloat (as_float a + as_float b)"

fun py_sub :: "py_num \<Rightarrow> py_num \<Rightarrow> py_num" where
  "py_sub (PyInt a) (PyInt b) = PyInt (a - b)"
| "py_sub a b = PyFloat (as_float a - as_float b)"

definition py_sq :: "py_num \<Rightarrow> py_num" where
  "py_sq a = py_mul a a"

text \<open>A one-dimensional numpy array with its dtype.\<close>

datatype ndarray = Int64 "int list" | Float64 "real list"

fun as_floats :: "ndarray \<Rightarrow> real list" where
  "as_floats (Int64 xs) = map real_of_int xs"
| "as_floats (Float64 xs) = xs"

text \<open>\<open>np.array\<close> of a list of numbers: \<open>int64\<close> when all are ints, \<open>float64\<close> when one is a
  float or the list is empty. \<open>np.sum\<close> of a list is the sum of that array, a scalar of its
  dtype.\<close>

definition np_array :: "py_num list \<Rightarrow> ndarray" where
  "np_array xs =
     (if xs \<noteq> [] \<and> list_all is_int xs then Int64 (map the_int xs)
      else Float64 (map as_float xs))"

definition np_sum :: "py_num list \<Rightarrow> py_num" where
  "np_sum xs =
     (case np_array xs of
        Int64 ys \<Rightarrow> PyInt (sum_list ys)
      | Float64 ys \<Rightarrow> PyFloat (sum_list ys))"

text \<open>\<open>a_i\<close> and \<open>n_coef\<close> are the two local functions of \<open>_square_poly_coef\<close>.\<close>

definition a_i :: "py_num list \<Rightarrow> nat \<Rightarrow> py_num" where
  "a_i coef i = (if i < length coef then coef ! i else PyInt 0)"

definition n_coef :: "py_num list \<Rightarrow> nat \<Rightarrow> py_num" where
  "n_coef coef n = np_sum (map (\<lambda>i. py_mul (a_i coef i) (a_i coef (n - i))) [0..<n + 1])"

definition square_poly_coef :: "py_num list \<Rightarrow> ndarray" where
  "square_poly_coef coef = np_array (map (n_coef coef) [0..<2 * length coef - 1])"

text \<open>A Python number times an array: the result is \<open>int64\<close> only for an int and an
  \<open>int64\<close> array.\<close>

fun scalar_times :: "py_num \<Rightarrow> ndarray \<Rightarrow> ndarray" where
  "scalar_times (PyInt k) (Int64 xs) = Int64 (map (\<lambda>x. k * x) xs)"
| "scalar_times v xs = Float64 (map (\<lambda>x. as_float v * x) (as_floats xs))"

text \<open>
  \<open>F_coef[:n] += A\<close> for an array \<open>A\<close> of length \<open>n\<close>, done in place: an \<open>int64\<close> array
  does not take a \<open>float64\<close> summand (numpy raises \<open>UFuncTypeError\<close>, a \<open>TypeError\<close>). The
  slice is as long as \<open>A\<close> in every call here, the squared polynomial having at least as
  many coefficients as the polynomial.
\<close>

fun iadd_prefix :: "ndarray \<Rightarrow> ndarray \<Rightarrow> py_error + ndarray" where
  "iadd_prefix (Int64 F) (Int64 A) =
     Inr (Int64 (map (\<lambda>(c, a). c + a) (zip (take (length A) F) A) @ drop (length A) F))"
| "iadd_prefix (Int64 F) (Float64 A) = Inl TypeError"
| "iadd_prefix (Float64 F) A =
     Inr (Float64 (map (\<lambda>(c, a). c + a) (zip (take (length (as_floats A)) F) (as_floats A))
                   @ drop (length (as_floats A)) F))"

text \<open>The cast of a float to an integer type drops the fraction.\<close>

definition c_trunc :: "real \<Rightarrow> int" where
  "c_trunc x = (if 0 \<le> x then \<lfloor>x\<rfloor> else \<lceil>x\<rceil>)"

text \<open>
  \<open>F_coef[i] += v\<close> for a Python number \<open>v\<close>: the sum is formed as a scalar and stored in
  the array, so a float sum stored in an \<open>int64\<close> array loses its fraction. An index
  outside the array raises.
\<close>

fun iadd_at :: "ndarray \<Rightarrow> nat \<Rightarrow> py_num \<Rightarrow> py_error + ndarray" where
  "iadd_at (Int64 F) i (PyInt v) =
     (if i < length F then Inr (Int64 (F[i := F ! i + v])) else Inl IndexError)"
| "iadd_at (Int64 F) i (PyFloat v) =
     (if i < length F then Inr (Int64 (F[i := c_trunc (real_of_int (F ! i) + v)]))
      else Inl IndexError)"
| "iadd_at (Float64 F) i v =
     (if i < length F then Inr (Float64 (F[i := F ! i + as_float v])) else Inl IndexError)"

text \<open>
  The coefficients \<open>F_coef\<close> that \<open>circle_poly_intersection\<close> builds, ascending. For a
  constant polynomial the source has a Python list, which the root finder turns into an
  array.
\<close>

definition F_coef :: "py_num \<Rightarrow> py_num \<Rightarrow> py_num \<Rightarrow> py_num list \<Rightarrow> py_error + ndarray" where
  "F_coef r x0 y0 poly_coef =
     (if length poly_coef = 1
      then Inr (np_array
             [py_sub (py_add (py_sq x0) (py_sq (py_sub y0 (poly_coef ! 0)))) (py_sq r),
              py_mul (PyInt (- 2)) x0, PyInt 1])
      else
        (let F = square_poly_coef poly_coef
         in case iadd_prefix F (scalar_times (py_mul (PyInt (- 2)) y0) (np_array poly_coef)) of
              Inl e \<Rightarrow> Inl e
            | Inr F \<Rightarrow>
           (case iadd_at F 0 (py_sub (py_add (py_sq x0) (py_sq y0)) (py_sq r)) of
              Inl e \<Rightarrow> Inl e
            | Inr F \<Rightarrow>
           (case iadd_at F 1 (py_mul (PyInt (- 2)) x0) of
              Inl e \<Rightarrow> Inl e
            | Inr F \<Rightarrow> iadd_at F 2 (PyInt 1)))))"

text \<open>The value of the polynomial with the ascending float coefficients \<open>coef\<close>, at a real
  and at a complex argument (\<open>np.polynomial.Polynomial(poly_coef)(x)\<close>).\<close>

definition polyval :: "real list \<Rightarrow> real \<Rightarrow> real" where
  "polyval coef x = (\<Sum>i<length coef. coef ! i * x ^ i)"

definition cpolyval :: "real list \<Rightarrow> complex \<Rightarrow> complex" where
  "cpolyval coef z = (\<Sum>i<length coef. of_real (coef ! i) * z ^ i)"

text \<open>
  \<open>circle_poly_intersection\<close>. The root finder \<open>np.polynomial.polynomial.polyroots\<close> is
  numpy's and is a parameter; it works on the coefficients as floats. \<open>np.isreal\<close> keeps
  the roots whose imaginary part is zero.
\<close>

definition circle_poly_intersection ::
  "(real list \<Rightarrow> complex list) \<Rightarrow> py_num \<Rightarrow> py_num \<Rightarrow> py_num \<Rightarrow> py_num list
     \<Rightarrow> py_error + (real \<times> real) list" where
  "circle_poly_intersection polyroots r x0 y0 poly_coef =
     (case F_coef r x0 y0 poly_coef of Inl e \<Rightarrow> Inl e | Inr F \<Rightarrow>
        (let roots = polyroots (as_floats F);
             roots = map Re (filter (\<lambda>z. Im z = 0) roots)
         in Inr (map (\<lambda>x. (x, polyval (map as_float poly_coef) x)) roots)))"

text \<open>A root finder for the examples: it returns the two roots of \<open>2 x\<^sup>2 - 6\<close>, in ascending
  order as numpy lists them, whatever it is given.\<close>

definition demo_polyroots :: "real list \<Rightarrow> complex list" where
  "demo_polyroots F = [- complex_of_real (sqrt 3), complex_of_real (sqrt 3)]"

section \<open>Flattening edge points (\<open>rom_plumes/models.py\<close>)\<close>

text \<open>
  \<open>np.isclose(a, b, rtol, atol)\<close> on finite numbers; numpy's defaults are
  \<open>rtol = 1e-5\<close> and \<open>atol = 1e-8\<close>.
\<close>

definition isclose :: "real \<Rightarrow> real \<Rightarrow> real \<Rightarrow> real \<Rightarrow> bool" where
  "isclose a b rtol atol = (\<bar>a - b\<bar> \<le> atol + rtol * \<bar>b\<bar>)"

definition default_rtol :: real where
  "default_rtol = 1 / 10 ^ 5"

definition default_atol :: real where
  "default_atol = 1 / 10 ^ 8"

text \<open>\<open>PlumePoints\<close>: the rows \<open>(radius, x, y)\<close> of a frame, finite floats as reals.\<close>

type_synonym plume_points = "(real \<times> real \<times> real) list"

text \<open>
  \<open>_create_radius_pairs\<close>: \<open>mask\<close> holds the indices of the rows of \<open>curve_1_pts\<close> whose
  radius is close to \<open>r\<close>, and \<open>curve_1_pts[mask][0, 1:]\<close> is the \<open>(x, y)\<close> of the first.
\<close>

fun create_radius_pairs ::
  "plume_points \<Rightarrow> plume_points \<Rightarrow> (real \<times> (real \<times> real) \<times> (real \<times> real)) list" where
  "create_radius_pairs curve_1_pts [] = []"
| "create_radius_pairs curve_1_pts ((r, x, y) # curve_2_pts) =
     (let mask = filter (\<lambda>i. isclose (fst (curve_1_pts ! i)) r default_rtol default_atol)
                   [0..<length curve_1_pts]
      in if mask = [] then create_radius_pairs curve_1_pts curve_2_pts
         else (r, snd (curve_1_pts ! hd mask), (x, y))
              # create_radius_pairs curve_1_pts curve_2_pts)"

definition flatten_edge_points :: "plume_points \<Rightarrow> plume_points \<Rightarrow> (real \<times> real) list" where
  "flatten_edge_points mean_points vari_points =
     map (\<lambda>(radius, center_points, edge_points). (radius, norm_diff center_points edge_points))
       (create_radius_pairs mean_points vari_points)"

section \<open>Regression over frames (\<open>rom_plumes/models.py\<close>)\<close>

text \<open>
  The arrays of the caller live in a store, a list of arrays addressed by position, and
  \<open>mean_points\<close> pairs each frame number with the address of its array. \<open>np.copy\<close>
  allocates a new array at the end of the store; \<open>frame_points[:, 1:] -= decenter\<close> writes
  into the array at the address it is given.
\<close>

type_synonym store = "plume_points list"

definition np_copy :: "store \<Rightarrow> nat \<Rightarrow> nat \<times> store" where
  "np_copy h a = (length h, h @ [h ! a])"

definition decenter_points :: "real \<times> real \<Rightarrow> plume_points \<Rightarrow> plume_points" where
  "decenter_points decenter pts = map (\<lambda>(r, x, y). (r, x - fst decenter, y - snd decenter)) pts"

definition isub_decenter :: "store \<Rightarrow> nat \<Rightarrow> real \<times> real \<Rightarrow> store" where
  "isub_decenter h a decenter = h[a := decenter_points decenter (h ! a)]"

text \<open>
  \<open>regress_frame_mean\<close> lives in \<open>regressions.py\<close>, which is not part of the sources at
  hand. It is a parameter of the model: given the contents of the array it is passed, the
  method, the degree and the direction, it raises or returns a coefficient vector, and it
  leaves some contents in that array.
\<close>

type_synonym regress_frame_mean_fn =
  "plume_points \<Rightarrow> string \<Rightarrow> int \<Rightarrow> string \<Rightarrow> (py_error + npfloat list) \<times> plume_points"

datatype warning = Insufficient_training_points nat

text \<open>
  \<open>coef_time_series[i] = v\<close> for a row of width \<open>n\<close>: numpy broadcasts a vector of length one
  and refuses every other length but \<open>n\<close>.
\<close>

definition assign_row :: "nat \<Rightarrow> npfloat list \<Rightarrow> py_error + npfloat list" where
  "assign_row n v =
     (if length v = n then Inr v
      else if length v = 1 then Inr (replicate n (hd v))
      else Inl ValueError)"

text \<open>The loop \<open>for i, (_, frame_points) in enumerate(mean_points)\<close>.\<close>

fun frames_loop ::
  "regress_frame_mean_fn \<Rightarrow> string \<Rightarrow> int \<Rightarrow> string \<Rightarrow> (real \<times> real) option \<Rightarrow> nat \<Rightarrow> nat
     \<Rightarrow> (int \<times> nat) list \<Rightarrow> store \<Rightarrow> npfloat list list \<Rightarrow> warning list
     \<Rightarrow> (py_error + npfloat list list \<times> warning list) \<times> store" where
  "frames_loop rfm regression_method poly_deg direction decenter n i [] h cts ws =
     (Inr (cts, ws), h)"
| "frames_loop rfm regression_method poly_deg direction decenter n i ((k, a) # rest) h cts ws =
     (let (frame_points, h) = np_copy h a;
          h = (case decenter of None \<Rightarrow> h | Some dc \<Rightarrow> isub_decenter h frame_points dc);
          (res, left) = rfm (h ! frame_points) regression_method poly_deg direction;
          h = h[frame_points := left]
      in case res of
           Inr v \<Rightarrow>
             (case assign_row n v of
                Inl e \<Rightarrow> (Inl e, h)
              | Inr row \<Rightarrow>
                  frames_loop rfm regression_method poly_deg direction decenter n (i + 1) rest h
                    (cts[i := row]) ws)
         | Inl LinAlgError \<Rightarrow>
             frames_loop rfm regression_method poly_deg direction decenter n (i + 1) rest h
               (cts[i := replicate n NaN]) (ws @ [Insufficient_training_points i])
         | Inl e \<Rightarrow> (Inl e, h))"

definition regress_multiframe_mean ::
  "regress_frame_mean_fn \<Rightarrow> (int \<times> nat) list \<Rightarrow> string \<Rightarrow> int \<Rightarrow> string \<Rightarrow> (real \<times> real) option
     \<Rightarrow> store \<Rightarrow> (py_error + npfloat list list \<times> warning list) \<times> store" where
  "regress_multiframe_mean rfm mean_points regression_method poly_deg direction decenter h =
     (let n_frames = length mean_points;
          n_coef = (if regression_method = ''poly_para'' then 2 * (poly_deg + 1)
                    else if regression_method = ''linear'' then 2
                    else poly_deg + 1)
      in if n_coef < 0 then (Inl ValueError, h)
         else frames_loop rfm regression_method poly_deg direction decenter (nat n_coef) 0
                mean_points h (replicate n_frames (replicate (nat n_coef) (Fin 0))) [])"

text \<open>
  What the call of \<open>regress_frame_mean\<close> in the body of the loop raises or returns for a
  frame whose array holds \<open>pts\<close>: the function sees the copy, after the subtraction of
  \<open>decenter\<close> if there is one.
\<close>

definition frame_outcome ::
  "regress_frame_mean_fn \<Rightarrow> string \<Rightarrow> int \<Rightarrow> string \<Rightarrow> (real \<times> real) option \<Rightarrow> plume_points
     \<Rightarrow> py_error + npfloat list" where
  "frame_outcome rfm regression_method poly_deg direction decenter pts =
     fst (rfm (case decenter of None \<Rightarrow> pts | Some dc \<Rightarrow> decenter_points dc pts)
            regression_method poly_deg direction)"

text \<open>
  A stand-in for \<open>regress_frame_mean\<close> in the examples: it raises \<open>LinAlgError\<close> on fewer
  than two points and otherwise returns the \<open>x\<close> and the \<open>y\<close> of the first point as its two
  coefficients. The store of the examples holds a frame of two points and a frame of one.
\<close>

definition demo_regress :: regress_frame_mean_fn where
  "demo_regress pts regression_method poly_deg direction =
     (if length pts < 2 then (Inl LinAlgError, pts)
      else (Inr [Fin (fst (snd (hd pts))), Fin (snd (snd (hd pts)))], pts))"

definition demo_store :: store where
  "demo_store = [[(1, 11, 12), (2, 13, 14)], [(1, 10, 10)]]"

section \<open>The ring search (\<open>models.py\<close>)\<close>

text \<open>
  A gray image is a two-dimensional array of bytes: \<open>array.shape\<close> is \<open>(n, d)\<close> and
  \<open>pixel img row col\<close> is \<open>array[row, col]\<close>.
\<close>

record gray_image =
  shape_n :: nat
  shape_d :: nat
  pixel :: "nat \<Rightarrow> nat \<Rightarrow> 8 word"

text \<open>The index pairs \<open>(row, col)\<close> of an array in row-major order, the order in which a
  boolean mask selects and \<open>np.argwhere\<close> lists.\<close>

definition grid :: "gray_image \<Rightarrow> (nat \<times> nat) list" where
  "grid array = concat (map (\<lambda>yy. map (\<lambda>xx. (yy, xx)) [0..<shape_d array]) [0..<shape_n array])"

text \<open>Row-major order on positions \<open>(row, col)\<close>: an earlier row, or the same row and an
  earlier column.\<close>

definition row_major :: "nat \<times> nat \<Rightarrow> nat \<times> nat \<Rightarrow> bool" where
  "row_major p q = (fst p < fst q \<or> (fst p = fst q \<and> snd p < snd q))"

text \<open>\<open>np.sqrt((xx - col)**2 + (yy - row)**2)\<close> at one grid position.\<close>

definition distances :: "real \<times> real \<Rightarrow> nat \<times> nat \<Rightarrow> real" where
  "distances center p =
     (case center of (col, row) \<Rightarrow> case p of (yy, xx) \<Rightarrow>
        sqrt ((real xx - col)\<^sup>2 + (real yy - row)\<^sup>2))"

definition boundary_mask :: "real \<times> real \<Rightarrow> real \<Rightarrow> real \<Rightarrow> real \<Rightarrow> nat \<times> nat \<Rightarrow> bool" where
  "boundary_mask center r rtol atol p = isclose (distances center p) r rtol atol"


text \<open>\<open>np.max\<close> raises on an empty array.\<close>

fun np_max :: "8 word list \<Rightarrow> py_error + 8 word" where
  "np_max [] = Inl ValueError"
| "np_max (v # vs) = Inr (fold max vs v)"

text \<open>\<open>np.isclose(array, max_value)\<close> at one pixel, with numpy's default tolerances.\<close>

definition pixel_isclose :: "gray_image \<Rightarrow> 8 word \<Rightarrow> nat \<times> nat \<Rightarrow> bool" where
  "pixel_isclose array max_value p =
     isclose (real (unat (pixel array (fst p) (snd p)))) (real (unat max_value))
       default_rtol default_atol"

text \<open>
  The common tail of \<open>find_max_on_boundary\<close> and \<open>find_next_center\<close>: the maximum over the
  masked pixels, then the first position in \<open>np.argwhere\<close> order that is close to it and in
  the mask, returned as \<open>(col, row)\<close>.
\<close>

definition max_in_mask ::
  "gray_image \<Rightarrow> (nat \<times> nat \<Rightarrow> bool) \<Rightarrow> py_error + 8 word \<times> (nat \<times> nat)" where
  "max_in_mask array search_mask =
     (let subset = map (\<lambda>p. pixel array (fst p) (snd p)) (filter search_mask (grid array))
      in case np_max subset of Inl e \<Rightarrow> Inl e | Inr max_value \<Rightarrow>
         (case filter (\<lambda>p. pixel_isclose array max_value p \<and> search_mask p) (grid array) of
            [] \<Rightarrow> Inl IndexError
          | (row, col) # _ \<Rightarrow> Inr (max_value, (col, row))))"

definition find_max_on_boundary ::
  "gray_image \<Rightarrow> real \<times> real \<Rightarrow> real \<Rightarrow> real \<Rightarrow> real \<Rightarrow> py_error + 8 word \<times> (nat \<times> nat)" where
  "find_max_on_boundary array center r rtol atol =
     max_in_mask array (boundary_mask center r rtol atol)"




text \<open>
  The rest of \<open>concentric_circle\<close> works on the contours that OpenCV has found in the
  thresholded image, each a list of pixel positions \<open>(x, y)\<close>. \<open>contour_dist\<close> is the
  distance of a contour point to the origin, an entry of \<open>contour_dist_list\<close>.
\<close>

definition contour_dist :: "real \<times> real \<Rightarrow> int \<times> int \<Rightarrow> real" where
  "contour_dist orig_center p =
     sqrt ((real_of_int (fst p) - fst orig_center)\<^sup>2 + (real_of_int (snd p) - snd orig_center)\<^sup>2)"

text \<open>
  The inner loop over the contours leaves in \<open>intersection_points\<close> the points of the last
  contour whose distance is close to the radius (\<open>rtol=1e-2\<close>). Without a contour the
  variable is never assigned, and reading it raises.
\<close>

definition intersection_points ::
  "(int \<times> int) list list \<Rightarrow> real \<times> real \<Rightarrow> real \<Rightarrow> py_error + (int \<times> int) list" where
  "intersection_points selected_contours orig_center radius =
     (if selected_contours = [] then Inl UnboundLocalError
      else Inr (filter (\<lambda>p. isclose (contour_dist orig_center p) radius (1 / 100) default_atol)
                  (last selected_contours)))"

text \<open>\<open>np.round\<close> rounds a half to the even neighbour; \<open>rounded_mean\<close> is
  \<open>np.array(pts).mean(axis=0).round().astype(int)\<close>.\<close>

definition np_round :: "real \<Rightarrow> int" where
  "np_round x =
     (if x - real_of_int \<lfloor>x\<rfloor> < 1 / 2 then \<lfloor>x\<rfloor>
      else if 1 / 2 < x - real_of_int \<lfloor>x\<rfloor> then \<lfloor>x\<rfloor> + 1
      else if even \<lfloor>x\<rfloor> then \<lfloor>x\<rfloor> else \<lfloor>x\<rfloor> + 1)"

definition rounded_mean :: "(int \<times> int) list \<Rightarrow> int \<times> int" where
  "rounded_mean pts =
     (np_round (sum_list (map (\<lambda>p. real_of_int (fst p)) pts) / real (length pts)),
      np_round (sum_list (map (\<lambda>p. real_of_int (snd p)) pts) / real (length pts)))"

text \<open>The lambda \<open>f_mean\<close>; it is only called on a coefficient vector of at least three
  entries, shorter ones having raised before.\<close>

definition f_mean :: "real list \<Rightarrow> real \<Rightarrow> real" where
  "f_mean poly_coef_mean x =
     poly_coef_mean ! 0 * x\<^sup>2 + poly_coef_mean ! 1 * x + poly_coef_mean ! 2"

text \<open>The loop \<open>for step in range(1, num_of_circs + 1)\<close> that collects the points on the two
  sides of the mean curve.\<close>

fun var_loop ::
  "real list \<Rightarrow> (int \<times> int) list list \<Rightarrow> real \<times> real \<Rightarrow> real \<Rightarrow> nat list
     \<Rightarrow> (int \<times> int) list \<Rightarrow> (int \<times> int) list
     \<Rightarrow> py_error + (int \<times> int) list \<times> (int \<times> int) list" where
  "var_loop poly_coef_mean selected_contours orig_center radii [] var1_points var2_points =
     Inr (var1_points, var2_points)"
| "var_loop poly_coef_mean selected_contours orig_center radii (step # steps)
       var1_points var2_points =
     (let radius = real step * radii
      in case intersection_points selected_contours orig_center radius of
           Inl e \<Rightarrow> Inl e
         | Inr points \<Rightarrow>
             (let var_above = filter (\<lambda>p. f_mean poly_coef_mean (real_of_int (fst p))
                                            \<le> real_of_int (snd p)) points;
                  var_below = filter (\<lambda>p. \<not> f_mean poly_coef_mean (real_of_int (fst p))
                                              \<le> real_of_int (snd p)) points;
                  var1_points = (if var_above \<noteq> [] then var1_points @ [rounded_mean var_above]
                                 else var1_points);
                  var2_points = (if var_below \<noteq> [] then var2_points @ [rounded_mean var_below]
                                 else var2_points)
              in var_loop poly_coef_mean selected_contours orig_center radii steps
                   var1_points var2_points))"

text \<open>\<open>points_var1\<close> and \<open>points_var2\<close>: the collected points with the origin stacked below,
  or the origin alone.\<close>

definition with_origin :: "(int \<times> int) list \<Rightarrow> real \<times> real \<Rightarrow> (real \<times> real) list" where
  "with_origin var_points orig_center =
     (if var_points \<noteq> []
      then map (\<lambda>p. (real_of_int (fst p), real_of_int (snd p))) var_points @ [orig_center]
      else [orig_center])"

text \<open>
  The part of \<open>concentric_circle\<close> after the ring loop, from ``Apply poly fit to mean'' to
  the \<open>return\<close>. \<open>gaussian_filter\<close> is scipy's and \<open>np.polyfit\<close> numpy's: both are
  parameters, and so is \<open>contour_img\<close>, the image as OpenCV's drawing calls leave it, which
  are taken not to raise. The three curves are drawn with the first three coefficients of
  each fit, so a shorter coefficient vector raises.
\<close>

definition fit_curves ::
  "(real list \<Rightarrow> real \<Rightarrow> real list) \<Rightarrow> (real list \<Rightarrow> real list \<Rightarrow> int \<Rightarrow> py_error + real list)
     \<Rightarrow> 'img \<Rightarrow> (int \<times> int) list list \<Rightarrow> real \<times> real \<Rightarrow> real \<Rightarrow> nat \<Rightarrow> int \<Rightarrow> bool \<Rightarrow> real
     \<Rightarrow> (real \<times> real) list \<Rightarrow> py_error + 'img \<times> real list \<times> real list \<times> real list" where
  "fit_curves gaussian_filter polyfit contour_img selected_contours orig_center radii
       num_of_circs poly_deg mean_smoothing mean_smoothing_sigma points_mean =
     (let smooth_x = map fst points_mean;
          smooth_y = (if mean_smoothing
                      then gaussian_filter (map snd points_mean) mean_smoothing_sigma
                      else map snd points_mean)
      in if length smooth_y \<noteq> length smooth_x then Inl ValueError
         else
           (case polyfit smooth_x smooth_y poly_deg of
              Inl e \<Rightarrow> Inl e
            | Inr poly_coef_mean \<Rightarrow>
           if length poly_coef_mean < 3 then Inl IndexError
           else
           (case var_loop poly_coef_mean selected_contours orig_center radii
                   [1..<num_of_circs + 1] [] [] of
              Inl e \<Rightarrow> Inl e
            | Inr (var1_points, var2_points) \<Rightarrow>
           (let points_var1 = with_origin var1_points orig_center;
                points_var2 = with_origin var2_points orig_center
            in case polyfit (map fst points_var1) (map snd points_var1) poly_deg of
                 Inl e \<Rightarrow> Inl e
               | Inr poly_coef_var1 \<Rightarrow>
              (case polyfit (map fst points_var2) (map snd points_var2) poly_deg of
                 Inl e \<Rightarrow> Inl e
               | Inr poly_coef_var2 \<Rightarrow>
                   if length poly_coef_var1 < 3 \<or> length poly_coef_var2 < 3 then Inl IndexError
                   else Inr (contour_img, poly_coef_mean, poly_coef_var1, poly_coef_var2))))))"


text \<open>An image for the examples: two rows and two columns, intensity 7 off the diagonal
  and 0 on it.\<close>

definition demo_image :: gray_image where
  "demo_image = \<lparr>shape_n = 2, shape_d = 2, pixel = (\<lambda>row col. if row = col then 0 else 7)\<rparr>"




section \<open>The variance function on the mean polynomial (\<open>rom_plumes/models.py\<close>)\<close>

text \<open>Indexing a sequence with a Python integer: a negative index counts from the end.\<close>

definition getitem :: "'a list \<Rightarrow> int \<Rightarrow> py_error + 'a" where
  "getitem xs i =
     (if 0 \<le> i \<and> i < int (length xs) then Inr (xs ! nat i)
      else if - int (length xs) \<le> i \<and> i < 0 then Inr (xs ! nat (int (length xs) + i))
      else Inl IndexError)"

text \<open>The class \<open>var_func_on_poly\<close>; a field that is still \<open>None\<close> is \<open>None\<close> here.\<close>

record var_func_on_poly =
  var_on_flattened_poly_params :: "npfloat list option"
  poly_func_params :: "npfloat list list option"
  orig_center :: "(npfloat \<times> npfloat) option"
  upper_lower_envelope :: string

definition poly_func :: "var_func_on_poly \<Rightarrow> int \<Rightarrow> npfloat \<Rightarrow> py_error + npfloat" where
  "poly_func self t x =
     (case poly_func_params self of None \<Rightarrow> Inl TypeError | Some params \<Rightarrow>
        (case getitem params t of Inl e \<Rightarrow> Inl e | Inr row \<Rightarrow>
           (case row of [a, b, c] \<Rightarrow> Inr (a * sq x + b * x + c) | _ \<Rightarrow> Inl ValueError)))"

definition sinusoid_func :: "var_func_on_poly \<Rightarrow> int \<Rightarrow> npfloat \<Rightarrow> py_error + npfloat" where
  "sinusoid_func self t r =
     (case var_on_flattened_poly_params self of None \<Rightarrow> Inl TypeError | Some params \<Rightarrow>
        (case params of
           [A_opt, w_opt, g_opt, B_opt] \<Rightarrow>
             Inr (A_opt * np_sin (w_opt * r - g_opt * Fin (of_int t)) + B_opt * r)
         | _ \<Rightarrow> Inl ValueError))"

text \<open>
  The two loops \<open>for sol in sols: if sol[1] >= self.poly_func(t, sol[0]): return sol\<close> of
  \<open>eval_x\<close>, with \<open>>=\<close> or \<open><=\<close> as \<open>cmp\<close>; falling off the end returns \<open>None\<close>.
\<close>

fun first_sol ::
  "(npfloat \<Rightarrow> npfloat \<Rightarrow> bool) \<Rightarrow> var_func_on_poly \<Rightarrow> int \<Rightarrow> (npfloat \<times> npfloat) list
     \<Rightarrow> py_error + (npfloat \<times> npfloat) option" where
  "first_sol cmp self t [] = Inr None"
| "first_sol cmp self t (sol # sols) =
     (case poly_func self t (fst sol) of Inl e \<Rightarrow> Inl e | Inr y \<Rightarrow>
        if cmp (snd sol) y then Inr (Some sol) else first_sol cmp self t sols)"

definition eval_x :: "var_func_on_poly \<Rightarrow> int \<Rightarrow> npfloat \<Rightarrow> py_error + (npfloat \<times> npfloat) option" where
  "eval_x self t x =
     (let x1 = x; x0 = Fin 0; y0 = Fin 0
      in case poly_func self t x1 of Inl e \<Rightarrow> Inl e | Inr y1 \<Rightarrow>
         (let r = np_sqrt (sq (x0 - x1) + sq (y0 - y1))
          in case sinusoid_func self t r of Inl e \<Rightarrow> Inl e | Inr d \<Rightarrow>
             (let sols = circle_intersection x0 y0 r x1 y1 d
              in if upper_lower_envelope self = ''upper''
                 then first_sol (\<lambda>a b. a \<ge> b) self t sols
                 else if upper_lower_envelope self = ''lower''
                 then first_sol (\<lambda>a b. a \<le> b) self t sols
                 else Inr None)))"

text \<open>A fitted model for the examples: the mean curve is \<open>y = 4\<close> in frame 0 and \<open>y = 0\<close> in
  frame 1, and the variance sinusoid is constantly zero.\<close>

definition demo_model :: var_func_on_poly where
  "demo_model = \<lparr>var_on_flattened_poly_params = Some [Fin 0, Fin 0, Fin 0, Fin 0],
     poly_func_params = Some [[Fin 0, Fin 0, Fin 4], [Fin 0, Fin 0, Fin 0]],
     orig_center = Some (Fin 0, Fin 0), upper_lower_envelope = ''upper''\<rparr>"

section \<open>Properties of the geometry utilities\<close>

subsection \<open>Arithmetic of finite floats and of NaN\<close>

lemma sq_Fin [simp]: "sq (Fin a) = Fin (a\<^sup>2)"
  by (simp add: sq_def power2_eq_square)

lemma minus_Fin [simp]: "Fin a - Fin b = Fin (a - b)"
  by (simp add: minus_npfloat_def)

lemma radical_line_dist0:
  fixes u v L h d :: real
  assumes d: "d\<^sup>2 = u\<^sup>2 + v\<^sup>2" "d \<noteq> 0"
  shows "(L / d * u - h / d * v)\<^sup>2 + (L / d * v + h / d * u)\<^sup>2 = L\<^sup>2 + h\<^sup>2"
proof -
  have "(L / d * u - h / d * v)\<^sup>2 + (L / d * v + h / d * u)\<^sup>2 = (L\<^sup>2 + h\<^sup>2) * (u\<^sup>2 + v\<^sup>2) / d\<^sup>2"
    using d(2) by (simp add: field_simps power2_eq_square)
  also have "\<dots> = (L\<^sup>2 + h\<^sup>2) * d\<^sup>2 / d\<^sup>2" by (simp only: d(1))
  also have "\<dots> = L\<^sup>2 + h\<^sup>2" using d(2) by simp
  finally show ?thesis .
qed

lemma radical_line_dist1:
  fixes u v L h d :: real
  assumes d: "d\<^sup>2 = u\<^sup>2 + v\<^sup>2" "d \<noteq> 0"
  shows "(L / d * u - h / d * v - u)\<^sup>2 + (L / d * v + h / d * u - v)\<^sup>2 = (L - d)\<^sup>2 + h\<^sup>2"
proof -
  have a: "L / d * u - h / d * v - u = (L - d) / d * u - h / d * v"
    using d(2) by (simp add: field_simps)
  have b: "L / d * v + h / d * u - v = (L - d) / d * v + h / d * u"
    using d(2) by (simp add: field_simps)
  show ?thesis unfolding a b by (rule radical_line_dist0 [OF d])
qed

lemma circle_intersection_Fin:
  fixes x0 y0 r0 x1 y1 r1 :: real
  defines "d \<equiv> sqrt ((x0 - x1)\<^sup>2 + (y0 - y1)\<^sup>2)"
  defines "L \<equiv> (r0\<^sup>2 - r1\<^sup>2 + d\<^sup>2) / (2 * d)"
  defines "h \<equiv> sqrt (r0\<^sup>2 - L\<^sup>2)"
  assumes "d \<noteq> 0" "L\<^sup>2 \<le> r0\<^sup>2"
  shows "circle_intersection (Fin x0) (Fin y0) (Fin r0) (Fin x1) (Fin y1) (Fin r1) =
    map (\<lambda>p. (Fin (fst p), Fin (snd p))) [chord_point x0 y0 x1 y1 d L h, chord_point x0 y0 x1 y1 d L (- h)]"
proof -
  have d: "np_sqrt (sq (Fin x0 - Fin x1) + sq (Fin y0 - Fin y1)) = Fin d"
    by (simp add: d_def not_less)
  have L: "(sq (Fin r0) - sq (Fin r1) + sq (Fin d)) / (Fin 2 * Fin d) = Fin L"
    using assms(4) by (simp add: L_def)
  have h: "np_sqrt (sq (Fin r0) - sq (Fin L)) = Fin h"
    using assms(5) by (simp add: h_def not_less)
  show ?thesis
    unfolding circle_intersection_def d Let_def L h chord_point_def
    using assms(4) by simp
qed

lemma chord_point_dists:
  fixes x0 y0 r0 x1 y1 r1 h :: real
  defines "d \<equiv> sqrt ((x0 - x1)\<^sup>2 + (y0 - y1)\<^sup>2)"
  defines "L \<equiv> (r0\<^sup>2 - r1\<^sup>2 + d\<^sup>2) / (2 * d)"
  assumes "d \<noteq> 0" "h\<^sup>2 = r0\<^sup>2 - L\<^sup>2"
  shows "norm_diff (chord_point x0 y0 x1 y1 d L h) (x0, y0) = \<bar>r0\<bar>"
    and "norm_diff (chord_point x0 y0 x1 y1 d L h) (x1, y1) = \<bar>r1\<bar>"
proof -
  have d2: "d\<^sup>2 = (x1 - x0)\<^sup>2 + (y1 - y0)\<^sup>2"
    by (simp add: d_def power2_commute)
  have "L\<^sup>2 + h\<^sup>2 = r0\<^sup>2" using assms(4) by simp
  then show "norm_diff (chord_point x0 y0 x1 y1 d L h) (x0, y0) = \<bar>r0\<bar>"
    using radical_line_dist0 [OF d2 assms(3), of L h]
    by (simp add: chord_point_def norm_diff_def)
  have "2 * d * L = r0\<^sup>2 - r1\<^sup>2 + d\<^sup>2" using assms(3) by (simp add: L_def)
  then have "(L - d)\<^sup>2 + h\<^sup>2 = r1\<^sup>2"
    using assms(4) by (simp add: power2_diff algebra_simps)
  with radical_line_dist1 [OF d2 assms(3), of L h]
  have r1: "(L / d * (x1 - x0) - h / d * (y1 - y0) - (x1 - x0))\<^sup>2
    + (L / d * (y1 - y0) + h / d * (x1 - x0) - (y1 - y0))\<^sup>2 = r1\<^sup>2"
    by simp
  have e: "fst (chord_point x0 y0 x1 y1 d L h) - x1 = L / d * (x1 - x0) - h / d * (y1 - y0) - (x1 - x0)"
    "snd (chord_point x0 y0 x1 y1 d L h) - y1 = L / d * (y1 - y0) + h / d * (x1 - x0) - (y1 - y0)"
    by (simp_all add: chord_point_def)
  have "norm_diff (chord_point x0 y0 x1 y1 d L h) (x1, y1) =
      sqrt ((fst (chord_point x0 y0 x1 y1 d L h) - x1)\<^sup>2 + (snd (chord_point x0 y0 x1 y1 d L h) - y1)\<^sup>2)"
    by (simp add: norm_diff_def)
  also have "\<dots> = sqrt (r1\<^sup>2)"
    by (simp only: e r1)
  finally show "norm_diff (chord_point x0 y0 x1 y1 d L h) (x1, y1) = \<bar>r1\<bar>"
    by simp
qed


text \<open>
  Claim C1. Two circles with finite centres \<open>(x0, y0)\<close>, \<open>(x1, y1)\<close> and radii \<open>r0\<close>, \<open>r1\<close>,
  whose centres are \<open>d > 0\<close> apart and for which \<open>L\<^sup>2 \<le> r0\<^sup>2\<close> with
  \<open>L = (r0\<^sup>2 - r1\<^sup>2 + d\<^sup>2) / (2 d)\<close>: \<open>circle_intersection\<close> returns two points, each at
  distance \<open>r0\<close> from \<open>(x0, y0)\<close> and at distance \<open>r1\<close> from \<open>(x1, y1)\<close>. A radius is not
  negative; for a negative argument the distance is its absolute value
  (\<open>chord_point_dists\<close>).
\<close>

theorem circle_intersection_on_both_circles:
  fixes x0 y0 r0 x1 y1 r1 :: real
  assumes "0 < norm_diff (x1, y1) (x0, y0)"
    and "((r0\<^sup>2 - r1\<^sup>2 + (norm_diff (x1, y1) (x0, y0))\<^sup>2) / (2 * norm_diff (x1, y1) (x0, y0)))\<^sup>2 \<le> r0\<^sup>2"
    and "0 \<le> r0" and "0 \<le> r1"
  shows "\<exists>p q. circle_intersection (Fin x0) (Fin y0) (Fin r0) (Fin x1) (Fin y1) (Fin r1)
            = [(Fin (fst p), Fin (snd p)), (Fin (fst q), Fin (snd q))]
          \<and> norm_diff p (x0, y0) = r0 \<and> norm_diff p (x1, y1) = r1
          \<and> norm_diff q (x0, y0) = r0 \<and> norm_diff q (x1, y1) = r1"
proof -
  define d where "d = sqrt ((x0 - x1)\<^sup>2 + (y0 - y1)\<^sup>2)"
  define L where "L = (r0\<^sup>2 - r1\<^sup>2 + d\<^sup>2) / (2 * d)"
  define h where "h = sqrt (r0\<^sup>2 - L\<^sup>2)"
  have nd: "norm_diff (x1, y1) (x0, y0) = d"
    by (simp add: norm_diff_def d_def power2_commute)
  have d0: "d \<noteq> 0" using assms(1) nd by simp
  have Lr: "L\<^sup>2 \<le> r0\<^sup>2" using assms(2) nd by (simp add: L_def)
  have h2: "h\<^sup>2 = r0\<^sup>2 - L\<^sup>2" "(- h)\<^sup>2 = r0\<^sup>2 - L\<^sup>2"
    using Lr by (simp_all add: h_def)
  let ?p = "chord_point x0 y0 x1 y1 d L h" and ?q = "chord_point x0 y0 x1 y1 d L (- h)"
  have "circle_intersection (Fin x0) (Fin y0) (Fin r0) (Fin x1) (Fin y1) (Fin r1)
            = [(Fin (fst ?p), Fin (snd ?p)), (Fin (fst ?q), Fin (snd ?q))]"
    using circle_intersection_Fin [of x0 x1 y0 y1 r0 r1] d0 Lr
    by (simp add: d_def L_def h_def)
  moreover have "norm_diff ?p (x0, y0) = r0" "norm_diff ?p (x1, y1) = r1"
    using chord_point_dists [of x0 x1 y0 y1 h r0 r1] d0 h2(1) assms(3,4)
    by (simp_all add: d_def L_def)
  moreover have "norm_diff ?q (x0, y0) = r0" "norm_diff ?q (x1, y1) = r1"
    using chord_point_dists [of x0 x1 y0 y1 "- h" r0 r1] d0 h2(2) assms(3,4)
    by (simp_all add: d_def L_def)
  ultimately show ?thesis by blast
qed

lemma sqrt64: "sqrt 64 = 8"
  by (rule real_sqrt_unique) simp_all

theorem circle_intersection_on_both_circles_witness:
  "0 < norm_diff (8, 0) (0, 0) \<and> 
   (\<exists>p q. circle_intersection (Fin 0) (Fin 0) (Fin 5) (Fin 8) (Fin 0) (Fin 5)
            = [(Fin (fst p), Fin (snd p)), (Fin (fst q), Fin (snd q))]
          \<and> norm_diff p (0, 0) = 5 \<and> norm_diff p (8, 0) = 5
          \<and> norm_diff q (0, 0) = 5 \<and> norm_diff q (8, 0) = 5)"
proof -
  have n: "norm_diff (8, 0) (0, 0) = 8" by (simp add: norm_diff_def sqrt64)
  show ?thesis
    using circle_intersection_on_both_circles [of 8 0 0 0 5 5]
    by (simp add: n)
qed

lemma NaN_absorbs [simp]:
  "a + NaN = NaN" "a * NaN = NaN" "a / NaN = NaN" "a - NaN = NaN" "NaN - a = NaN"
  by (cases a; simp add: minus_npfloat_def)+

lemma NaN_compare [simp]: "\<not> a \<le> NaN" "\<not> NaN \<le> a"
  by (cases a; simp)+

lemma circle_intersection_no_chord:
  assumes "np_sqrt (sq r0 - sq ((sq r0 - sq r1 + sq (np_sqrt (sq (x0 - x1) + sq (y0 - y1))))
                                  / (Fin 2 * np_sqrt (sq (x0 - x1) + sq (y0 - y1))))) = NaN"
  shows "circle_intersection x0 y0 r0 x1 y1 r1 = [(NaN, NaN), (NaN, NaN)]"
  using assms by (simp add: circle_intersection_def Let_def)

lemma sq_inf_of_sign: "sq (inf_of_sign s) = (if s = 0 then NaN else PInf)"
  by (simp add: sq_def inf_of_sign_def)

lemma Fin_minus_PInf [simp]: "Fin a - PInf = NInf"
  by (simp add: minus_npfloat_def)

lemma circle_intersection_all_NaN:
  fixes x0 y0 r0 x1 y1 r1 :: real
  assumes "norm_diff (x1, y1) (x0, y0) = 0
     \<or> r0\<^sup>2 < ((r0\<^sup>2 - r1\<^sup>2 + (norm_diff (x1, y1) (x0, y0))\<^sup>2) / (2 * norm_diff (x1, y1) (x0, y0)))\<^sup>2"
  shows "circle_intersection (Fin x0) (Fin y0) (Fin r0) (Fin x1) (Fin y1) (Fin r1)
           = [(NaN, NaN), (NaN, NaN)]"
proof -
  define d where "d = sqrt ((x0 - x1)\<^sup>2 + (y0 - y1)\<^sup>2)"
  have nd: "norm_diff (x1, y1) (x0, y0) = d"
    by (simp add: norm_diff_def d_def power2_commute)
  have d: "np_sqrt (sq (Fin x0 - Fin x1) + sq (Fin y0 - Fin y1)) = Fin d"
    by (simp add: d_def not_less)
  have h: "np_sqrt (sq (Fin r0) - sq ((sq (Fin r0) - sq (Fin r1) + sq (Fin d)) / (Fin 2 * Fin d))) = NaN"
  proof (cases "d = 0")
    case True
    then show ?thesis
      by (simp add: sq_inf_of_sign)
  next
    case False
    with assms nd have "r0\<^sup>2 < ((r0\<^sup>2 - r1\<^sup>2 + d\<^sup>2) / (2 * d))\<^sup>2" by simp
    with False show ?thesis
      by simp
  qed
  show ?thesis
    by (rule circle_intersection_no_chord) (simp only: d h)
qed

lemma poly_func_NaN: "poly_func self t x = Inr y \<Longrightarrow> poly_func self t NaN = Inr NaN"
  by (auto simp: poly_func_def split: option.splits sum.splits list.splits)

lemma first_sol_all_NaN:
  assumes "poly_func self t x = Inr y"
  shows "first_sol (\<lambda>a b. a \<ge> b) self t [(NaN, NaN), (NaN, NaN)] = Inr None"
    and "first_sol (\<lambda>a b. a \<le> b) self t [(NaN, NaN), (NaN, NaN)] = Inr None"
  using poly_func_NaN [OF assms] by simp_all

lemma eval_x_all_NaN:
  assumes "poly_func self t x = Inr y1"
    and "sinusoid_func self t (np_sqrt (sq (Fin 0 - x) + sq (Fin 0 - y1))) = Inr d"
    and "circle_intersection (Fin 0) (Fin 0) (np_sqrt (sq (Fin 0 - x) + sq (Fin 0 - y1))) x y1 d
           = [(NaN, NaN), (NaN, NaN)]"
  shows "eval_x self t x = Inr None"
  using assms first_sol_all_NaN [OF assms(1)]
  by (simp add: eval_x_def Let_def)

lemma flattened_radius: "np_sqrt (sq (Fin 0 - Fin x) + sq (Fin 0 - Fin y)) = Fin (norm_diff (0, 0) (x, y))"
  by (simp add: norm_diff_def not_less)


text \<open>
  Claim C4. On a degenerate input, concentric circles (\<open>d = 0\<close>) or circles that do not meet
  (\<open>r0\<^sup>2 < L\<^sup>2\<close>), all four coordinates that \<open>circle_intersection\<close> returns are NaN: the
  result holds no real point and nothing is clamped to one. The caller \<open>eval_x\<close>, whose
  two circles are the one about the origin through \<open>(x1, y1)\<close> and the one about
  \<open>(x1, y1)\<close> with the sinusoid's value as radius, then returns \<open>None\<close>.
\<close>

theorem circle_intersection_degenerate_no_solution:
  fixes x0 y0 r0 x1 y1 r1 :: real
  assumes "norm_diff (x1, y1) (x0, y0) = 0
     \<or> r0\<^sup>2 < ((r0\<^sup>2 - r1\<^sup>2 + (norm_diff (x1, y1) (x0, y0))\<^sup>2) / (2 * norm_diff (x1, y1) (x0, y0)))\<^sup>2"
  shows "circle_intersection (Fin x0) (Fin y0) (Fin r0) (Fin x1) (Fin y1) (Fin r1)
           = [(NaN, NaN), (NaN, NaN)]
       \<and> (\<forall>self t. x0 = 0 \<and> y0 = 0 \<and> r0 = norm_diff (0, 0) (x1, y1)
              \<and> poly_func self t (Fin x1) = Inr (Fin y1)
              \<and> sinusoid_func self t (Fin r0) = Inr (Fin r1)
            \<longrightarrow> eval_x self t (Fin x1) = Inr None)"
proof (intro conjI allI impI)
  show ci: "circle_intersection (Fin x0) (Fin y0) (Fin r0) (Fin x1) (Fin y1) (Fin r1)
           = [(NaN, NaN), (NaN, NaN)]"
    by (rule circle_intersection_all_NaN [OF assms])
  fix self t
  assume a: "x0 = 0 \<and> y0 = 0 \<and> r0 = norm_diff (0, 0) (x1, y1)
              \<and> poly_func self t (Fin x1) = Inr (Fin y1)
              \<and> sinusoid_func self t (Fin r0) = Inr (Fin r1)"
  then have z: "x0 = 0" "y0 = 0" and r0: "norm_diff (0, 0) (x1, y1) = r0"
    and p: "poly_func self t (Fin x1) = Inr (Fin y1)"
    and s: "sinusoid_func self t (Fin r0) = Inr (Fin r1)"
    by blast+
  have r: "np_sqrt (sq (Fin 0 - Fin x1) + sq (Fin 0 - Fin y1)) = Fin r0"
    by (simp only: flattened_radius r0)
  show "eval_x self t (Fin x1) = Inr None"
  proof (rule eval_x_all_NaN [OF p])
    show "sinusoid_func self t (np_sqrt (sq (Fin 0 - Fin x1) + sq (Fin 0 - Fin y1))) = Inr (Fin r1)"
      by (simp only: r s)
    show "circle_intersection (Fin 0) (Fin 0) (np_sqrt (sq (Fin 0 - Fin x1) + sq (Fin 0 - Fin y1)))
            (Fin x1) (Fin y1) (Fin r1) = [(NaN, NaN), (NaN, NaN)]"
      using ci by (simp only: r z)
  qed
qed

theorem circle_intersection_degenerate_no_solution_witness:
  "norm_diff (0, 0) (0, 0) = 0
   \<and> circle_intersection (Fin 0) (Fin 0) (Fin 0) (Fin 0) (Fin 0) (Fin 0) = [(NaN, NaN), (NaN, NaN)]
   \<and> eval_x demo_model 1 (Fin 0) = Inr None"
proof -
  have n: "norm_diff (0, 0) (0, 0) = 0" by (simp add: norm_diff_def)
  have p: "poly_func demo_model 1 (Fin 0) = Inr (Fin 0)"
    by (simp add: poly_func_def demo_model_def getitem_def)
  have s: "sinusoid_func demo_model 1 (Fin 0) = Inr (Fin 0)"
    by (simp add: sinusoid_func_def demo_model_def)
  show ?thesis
    using circle_intersection_degenerate_no_solution [of 0 0 0 0 0 0] n p s
    by simp
qed

section \<open>Properties of the variance function\<close>

lemma poly_func_total:
  "poly_func self t x = Inr y \<Longrightarrow> \<exists>v. poly_func self t x' = Inr v"
  by (auto simp: poly_func_def split: option.splits sum.splits list.splits)

lemma first_sol_Some:
  "first_sol cmp self t sols = Inr (Some p) \<Longrightarrow>
     p \<in> set sols \<and> (\<exists>v. poly_func self t (fst p) = Inr v \<and> cmp (snd p) v)"
proof (induction sols)
  case Nil
  then show ?case by simp
next
  case (Cons sol sols)
  then show ?case
    by (auto split: sum.splits if_splits)
qed

lemma first_sol_None:
  assumes "poly_func self t x = Inr y"
    and "\<forall>sol \<in> set sols. \<forall>v. poly_func self t (fst sol) = Inr v \<longrightarrow> \<not> cmp (snd sol) v"
  shows "first_sol cmp self t sols = Inr None"
  using assms(2)
proof (induction sols)
  case Nil
  then show ?case by simp
next
  case (Cons sol sols)
  obtain v where "poly_func self t (fst sol) = Inr v"
    using poly_func_total [OF assms(1)] by blast
  with Cons show ?case by simp
qed

lemma eval_x_unfold:
  assumes "poly_func self t x = Inr y1"
    and "sinusoid_func self t (np_sqrt (sq (Fin 0 - x) + sq (Fin 0 - y1))) = Inr d"
  shows "eval_x self t x =
     (if upper_lower_envelope self = ''upper''
      then first_sol (\<lambda>a b. a \<ge> b) self t
             (circle_intersection (Fin 0) (Fin 0) (np_sqrt (sq (Fin 0 - x) + sq (Fin 0 - y1))) x y1 d)
      else if upper_lower_envelope self = ''lower''
      then first_sol (\<lambda>a b. a \<le> b) self t
             (circle_intersection (Fin 0) (Fin 0) (np_sqrt (sq (Fin 0 - x) + sq (Fin 0 - y1))) x y1 d)
      else Inr None)"
  using assms by (simp add: eval_x_def Let_def)

lemma eval_x_Some:
  assumes "eval_x self t x = Inr (Some p)"
  shows "(upper_lower_envelope self = ''upper'' \<longrightarrow>
            (\<exists>v. poly_func self t (fst p) = Inr v \<and> snd p \<ge> v))
       \<and> (upper_lower_envelope self = ''lower'' \<longrightarrow>
            (\<exists>v. poly_func self t (fst p) = Inr v \<and> snd p \<le> v))"
proof -
  from assms obtain y1 where y1: "poly_func self t x = Inr y1"
    by (auto simp: eval_x_def Let_def split: sum.splits)
  from assms y1 obtain d where d: "sinusoid_func self t (np_sqrt (sq (Fin 0 - x) + sq (Fin 0 - y1))) = Inr d"
    by (auto simp: eval_x_def Let_def split: sum.splits)
  show ?thesis
    using assms first_sol_Some [of _ self t _ p]
    unfolding eval_x_unfold [OF y1 d]
    by (auto split: if_splits)
qed


text \<open>
  Claim C2. A point that \<open>eval_x\<close> returns lies on the model's side of the mean curve:
  \<open>py \<ge> poly_func(t, px)\<close> for the envelope \<open>upper\<close> and \<open>py \<le> poly_func(t, px)\<close> for
  \<open>lower\<close>. When neither candidate of \<open>circle_intersection\<close> satisfies the side's
  comparison, \<open>eval_x\<close> returns \<open>None\<close>. The first circle is the one about \<open>(0, 0)\<close> with
  the radius \<open>r = \<parallel>(0, 0) - (x, poly_func(t, x))\<parallel>\<close>, at which the sinusoid is evaluated too.
\<close>

theorem eval_x_envelope_side:
  "(\<forall>p. eval_x self t x = Inr (Some p) \<longrightarrow>
      (upper_lower_envelope self = ''upper'' \<longrightarrow>
         (\<exists>v. poly_func self t (fst p) = Inr v \<and> snd p \<ge> v))
    \<and> (upper_lower_envelope self = ''lower'' \<longrightarrow>
         (\<exists>v. poly_func self t (fst p) = Inr v \<and> snd p \<le> v)))
   \<and> (\<forall>y1 d. poly_func self t x = Inr y1
         \<and> sinusoid_func self t (np_sqrt (sq (Fin 0 - x) + sq (Fin 0 - y1))) = Inr d \<longrightarrow>
      (upper_lower_envelope self = ''upper''
         \<and> (\<forall>sol \<in> set (circle_intersection (Fin 0) (Fin 0)
                            (np_sqrt (sq (Fin 0 - x) + sq (Fin 0 - y1))) x y1 d).
               \<forall>v. poly_func self t (fst sol) = Inr v \<longrightarrow> \<not> snd sol \<ge> v)
         \<longrightarrow> eval_x self t x = Inr None)
    \<and> (upper_lower_envelope self = ''lower''
         \<and> (\<forall>sol \<in> set (circle_intersection (Fin 0) (Fin 0)
                            (np_sqrt (sq (Fin 0 - x) + sq (Fin 0 - y1))) x y1 d).
               \<forall>v. poly_func self t (fst sol) = Inr v \<longrightarrow> \<not> snd sol \<le> v)
         \<longrightarrow> eval_x self t x = Inr None))
   \<and> (\<forall>a b d. x = Fin a \<and> poly_func self t (Fin a) = Inr (Fin b)
         \<and> sinusoid_func self t (Fin (norm_diff (0, 0) (a, b))) = Inr d \<longrightarrow>
      eval_x self t x =
        (if upper_lower_envelope self = ''upper''
         then first_sol (\<lambda>a b. a \<ge> b) self t
                (circle_intersection (Fin 0) (Fin 0) (Fin (norm_diff (0, 0) (a, b))) (Fin a) (Fin b) d)
         else if upper_lower_envelope self = ''lower''
         then first_sol (\<lambda>a b. a \<le> b) self t
                (circle_intersection (Fin 0) (Fin 0) (Fin (norm_diff (0, 0) (a, b))) (Fin a) (Fin b) d)
         else Inr None))"
proof (intro conjI allI impI)
  fix p assume "eval_x self t x = Inr (Some p)" "upper_lower_envelope self = ''upper''"
  then show "\<exists>v. poly_func self t (fst p) = Inr v \<and> snd p \<ge> v"
    using eval_x_Some by blast
next
  fix p assume "eval_x self t x = Inr (Some p)" "upper_lower_envelope self = ''lower''"
  then show "\<exists>v. poly_func self t (fst p) = Inr v \<and> snd p \<le> v"
    using eval_x_Some by blast
next
  fix y1 d
  assume a: "poly_func self t x = Inr y1
    \<and> sinusoid_func self t (np_sqrt (sq (Fin 0 - x) + sq (Fin 0 - y1))) = Inr d"
  assume b: "upper_lower_envelope self = ''upper''
         \<and> (\<forall>sol \<in> set (circle_intersection (Fin 0) (Fin 0)
                            (np_sqrt (sq (Fin 0 - x) + sq (Fin 0 - y1))) x y1 d).
               \<forall>v. poly_func self t (fst sol) = Inr v \<longrightarrow> \<not> snd sol \<ge> v)"
  from a have p: "poly_func self t x = Inr y1"
    and s: "sinusoid_func self t (np_sqrt (sq (Fin 0 - x) + sq (Fin 0 - y1))) = Inr d"
    by blast+
  show "eval_x self t x = Inr None"
    unfolding eval_x_unfold [OF p s]
    using b first_sol_None [OF p, of _ "\<lambda>a b. a \<ge> b"] by simp
next
  fix y1 d
  assume a: "poly_func self t x = Inr y1
    \<and> sinusoid_func self t (np_sqrt (sq (Fin 0 - x) + sq (Fin 0 - y1))) = Inr d"
  assume b: "upper_lower_envelope self = ''lower''
         \<and> (\<forall>sol \<in> set (circle_intersection (Fin 0) (Fin 0)
                            (np_sqrt (sq (Fin 0 - x) + sq (Fin 0 - y1))) x y1 d).
               \<forall>v. poly_func self t (fst sol) = Inr v \<longrightarrow> \<not> snd sol \<le> v)"
  from a have p: "poly_func self t x = Inr y1"
    and s: "sinusoid_func self t (np_sqrt (sq (Fin 0 - x) + sq (Fin 0 - y1))) = Inr d"
    by blast+
  show "eval_x self t x = Inr None"
    unfolding eval_x_unfold [OF p s]
    using b first_sol_None [OF p, of _ "\<lambda>a b. a \<le> b"] by simp
next
  fix a b d
  assume h: "x = Fin a \<and> poly_func self t (Fin a) = Inr (Fin b)
         \<and> sinusoid_func self t (Fin (norm_diff (0, 0) (a, b))) = Inr d"
  then have x: "x = Fin a" and p: "poly_func self t (Fin a) = Inr (Fin b)"
    and s: "sinusoid_func self t (np_sqrt (sq (Fin 0 - Fin a) + sq (Fin 0 - Fin b))) = Inr d"
    unfolding flattened_radius by blast+
  show "eval_x self t x =
        (if upper_lower_envelope self = ''upper''
         then first_sol (\<lambda>a b. a \<ge> b) self t
                (circle_intersection (Fin 0) (Fin 0) (Fin (norm_diff (0, 0) (a, b))) (Fin a) (Fin b) d)
         else if upper_lower_envelope self = ''lower''
         then first_sol (\<lambda>a b. a \<le> b) self t
                (circle_intersection (Fin 0) (Fin 0) (Fin (norm_diff (0, 0) (a, b))) (Fin a) (Fin b) d)
         else Inr None)"
    unfolding x eval_x_unfold [OF p s] flattened_radius ..
qed

lemma sqrt25: "sqrt 25 = 5"
  by (rule real_sqrt_unique) simp_all

lemma demo_model_frame0:
  "poly_func demo_model 0 (Fin 3) = Inr (Fin 4)"
  "norm_diff (0, 0) (3, 4) = 5"
  "sinusoid_func demo_model 0 (Fin 5) = Inr (Fin 0)"
  "circle_intersection (Fin 0) (Fin 0) (Fin 5) (Fin 3) (Fin 4) (Fin 0) = [(Fin 3, Fin 4), (Fin 3, Fin 4)]"
     apply (simp add: poly_func_def demo_model_def getitem_def)
    apply (simp add: norm_diff_def sqrt25)
   apply (simp add: sinusoid_func_def demo_model_def)
  apply (simp add: circle_intersection_def Let_def sqrt25)
  done

lemma demo_model_frame1:
  "poly_func demo_model 1 (Fin 0) = Inr (Fin 0)"
  "np_sqrt (sq (Fin 0 - Fin 0) + sq (Fin 0 - Fin 0)) = Fin 0"
  "sinusoid_func demo_model 1 (Fin 0) = Inr (Fin 0)"
  "circle_intersection (Fin 0) (Fin 0) (Fin 0) (Fin 0) (Fin 0) (Fin 0) = [(NaN, NaN), (NaN, NaN)]"
     apply (simp add: poly_func_def demo_model_def getitem_def)
    apply simp
   apply (simp add: sinusoid_func_def demo_model_def)
  apply (simp add: circle_intersection_def Let_def inf_of_sign_def)
  done

theorem eval_x_envelope_side_witness:
  "eval_x demo_model 0 (Fin 3) = Inr (Some (Fin 3, Fin 4))
   \<and> upper_lower_envelope demo_model = ''upper''
   \<and> (\<exists>v. poly_func demo_model 0 (Fin 3) = Inr v \<and> Fin 4 \<ge> v)
   \<and> eval_x demo_model 1 (Fin 0) = Inr None"
proof -
  have u: "upper_lower_envelope demo_model = ''upper''"
    by (simp add: demo_model_def)
  have e: "eval_x demo_model 0 (Fin 3) = Inr (Some (Fin 3, Fin 4))"
    using eval_x_envelope_side [of demo_model 0 "Fin 3"] demo_model_frame0 u
    by simp
  have "\<exists>v. poly_func demo_model 0 (fst (Fin 3, Fin 4)) = Inr v \<and> snd (Fin 3, Fin 4) \<ge> v"
    using eval_x_envelope_side [of demo_model 0 "Fin 3"] e u by blast
  moreover have "eval_x demo_model 1 (Fin 0) = Inr None"
    using eval_x_envelope_side [of demo_model 1 "Fin 0"] demo_model_frame1 u
    by simp
  ultimately show ?thesis using e u by simp
qed

section \<open>Properties of the flattening\<close>

lemma index_filter_Cons:
  "filter (\<lambda>i. P ((x # xs) ! i)) [0..<length (x # xs)] =
     (if P x then [0] else []) @ map Suc (filter (\<lambda>i. P (xs ! i)) [0..<length xs])"
proof -
  have "[0..<length (x # xs)] = 0 # map Suc [0..<length xs]"
    by (simp add: upt_conv_Cons map_Suc_upt del: upt_Suc)
  then show ?thesis
    by (simp add: filter_map comp_def del: upt_Suc)
qed

lemma first_index_find:
  "(case filter (\<lambda>i. P (xs ! i)) [0..<length xs] of [] \<Rightarrow> None | i # _ \<Rightarrow> Some (xs ! i))
     = find P xs"
proof (induction xs)
  case Nil
  then show ?case by simp
next
  case (Cons x xs)
  show ?case
    unfolding index_filter_Cons using Cons
    by (simp split: list.splits)
qed

lemma create_radius_pairs_find:
  "create_radius_pairs curve_1_pts curve_2_pts =
     concat (map (\<lambda>(r, x, y).
        case find (\<lambda>m. isclose (fst m) r default_rtol default_atol) curve_1_pts of
          None \<Rightarrow> []
        | Some m \<Rightarrow> [(r, snd m, (x, y))]) curve_2_pts)"
proof (induction curve_2_pts)
  case Nil
  then show ?case by simp
next
  case (Cons p ps)
  obtain r x y where p: "p = (r, x, y)" by (cases p) auto
  let ?P = "\<lambda>m. isclose (fst m) r default_rtol default_atol"
  let ?mask = "filter (\<lambda>i. ?P (curve_1_pts ! i)) [0..<length curve_1_pts]"
  have f: "find ?P curve_1_pts = (case ?mask of [] \<Rightarrow> None | i # _ \<Rightarrow> Some (curve_1_pts ! i))"
    by (rule first_index_find [symmetric])
  show ?case
  proof (cases ?mask)
    case Nil
    with f have "find ?P curve_1_pts = None" by simp
    with Nil Cons show ?thesis by (simp add: p)
  next
    case (Cons i rest)
    with f have "find ?P curve_1_pts = Some (curve_1_pts ! i)" by simp
    with Cons Cons.IH show ?thesis by (simp add: p)
  qed
qed

text \<open>
  Claim C10. \<open>flatten_edge_points\<close> goes through the edge points in order. An edge point
  whose radius is close (\<open>np.isclose\<close>) to the radius of some mean point gives one row
  \<open>(radius, distance)\<close>, the distance being taken to the first such mean point in array
  order; an edge point without a match gives no row. So the radii of the rows are the radii
  of the matching edge points, in order.
\<close>

theorem flatten_edge_points_first_match:
  "flatten_edge_points mean_points vari_points =
     concat (map (\<lambda>(r, x, y).
        case find (\<lambda>m. isclose (fst m) r default_rtol default_atol) mean_points of
          None \<Rightarrow> []
        | Some m \<Rightarrow> [(r, norm_diff (snd m) (x, y))]) vari_points)
   \<and> map fst (flatten_edge_points mean_points vari_points) =
       map fst (filter (\<lambda>e. \<exists>m \<in> set mean_points. isclose (fst m) (fst e) default_rtol default_atol)
                  vari_points)"
proof
  show 1: "flatten_edge_points mean_points vari_points =
     concat (map (\<lambda>(r, x, y).
        case find (\<lambda>m. isclose (fst m) r default_rtol default_atol) mean_points of
          None \<Rightarrow> []
        | Some m \<Rightarrow> [(r, norm_diff (snd m) (x, y))]) vari_points)"
    unfolding flatten_edge_points_def create_radius_pairs_find
  proof (induction vari_points)
    case Nil
    then show ?case by simp
  next
    case (Cons e es)
    obtain r x y where e: "e = (r, x, y)" by (cases e) auto
    show ?case
      using Cons.IH
      by (cases "find (\<lambda>m. isclose (fst m) r default_rtol default_atol) mean_points")
        (simp_all add: e)
  qed
  show "map fst (flatten_edge_points mean_points vari_points) =
       map fst (filter (\<lambda>e. \<exists>m \<in> set mean_points. isclose (fst m) (fst e) default_rtol default_atol)
                  vari_points)"
    unfolding 1
  proof (induction vari_points)
    case Nil
    then show ?case by simp
  next
    case (Cons e es)
    obtain r x y where e: "e = (r, x, y)" by (cases e) auto
    let ?P = "\<lambda>m. isclose (fst m) r default_rtol default_atol"
    show ?case
    proof (cases "find ?P mean_points")
      case None
      then have "\<not> (\<exists>m \<in> set mean_points. ?P m)"
        using find_None_iff [of ?P mean_points] by blast
      with None Cons show ?thesis by (simp add: e)
    next
      case (Some m)
      then have "\<exists>m \<in> set mean_points. ?P m"
        using find_None_iff [of ?P mean_points] by force
      with Some Cons show ?thesis by (simp add: e)
    qed
  qed
qed

theorem flatten_edge_points_first_match_witness:
  "flatten_edge_points [(1, 0, 0), (2, 0, 0), (1, 5, 5)] [(1, 3, 4), (7, 1, 1), (2, 0, 0)]
     = [(1, 5), (2, 0)]"
proof -
  have c: "isclose 1 1 default_rtol default_atol" "isclose 2 2 default_rtol default_atol"
    "\<not> isclose 1 2 default_rtol default_atol" "\<not> isclose 1 7 default_rtol default_atol"
    "\<not> isclose 2 7 default_rtol default_atol"
    by (simp_all add: isclose_def default_rtol_def default_atol_def)
  have "sqrt 25 = 5" by (rule real_sqrt_unique) simp_all
  then show ?thesis
    using flatten_edge_points_first_match [of "[(1, 0, 0), (2, 0, 0), (1, 5, 5)]" "[(1, 3, 4), (7, 1, 1), (2, 0, 0)]"] c
    by (simp add: norm_diff_def)
qed

section \<open>Properties of the ring search\<close>

lemma set_grid: "set (grid array) = {(yy, xx). yy < shape_n array \<and> xx < shape_d array}"
  by (auto simp: grid_def)

lemma sorted_rows:
  "sorted_wrt (<) rows \<Longrightarrow>
     sorted_wrt row_major (concat (map (\<lambda>yy. map (\<lambda>xx. (yy, xx)) [0..<d]) rows))"
proof (induction rows)
  case Nil
  then show ?case by simp
next
  case (Cons y rows)
  let ?rest = "concat (map (\<lambda>yy. map (\<lambda>xx. (yy, xx)) [0..<d]) rows)"
  have a: "sorted_wrt row_major (map (\<lambda>xx. (y, xx)) [0..<d])"
    by (simp add: sorted_wrt_map row_major_def)
  have b: "sorted_wrt row_major ?rest"
    using Cons by simp
  have c: "\<forall>p \<in> set (map (\<lambda>xx. (y, xx)) [0..<d]). \<forall>q \<in> set ?rest. row_major p q"
    using Cons.prems by (auto simp: row_major_def)
  have "concat (map (\<lambda>yy. map (\<lambda>xx. (yy, xx)) [0..<d]) (y # rows))
          = map (\<lambda>xx. (y, xx)) [0..<d] @ ?rest"
    by simp
  then show ?case
    using a b c by (simp only: sorted_wrt_append)
qed

lemma sorted_grid: "sorted_wrt row_major (grid array)"
  unfolding grid_def by (rule sorted_rows) simp

lemma filter_head_first:
  assumes "sorted_wrt R xs" and "filter P xs = p # rest"
  shows "p \<in> set xs \<and> P p \<and> (\<forall>q \<in> set xs. P q \<longrightarrow> q = p \<or> R p q)"
proof -
  have "sorted_wrt R (p # rest)"
    using sorted_wrt_filter [OF assms(1), of P] assms(2) by simp
  then have "\<forall>q \<in> set rest. R p q" by simp
  moreover have "set (p # rest) = {q \<in> set xs. P q}"
    using assms(2) [symmetric] by simp
  ultimately show ?thesis by auto
qed

lemma np_max_Inr:
  assumes "vs \<noteq> []"
  shows "\<exists>m. np_max vs = Inr m \<and> m \<in> set vs \<and> (\<forall>v \<in> set vs. v \<le> m)"
proof -
  from assms obtain v ws where vs: "vs = v # ws" by (cases vs) auto
  have f: "fold max ws v = Max (set vs)"
    unfolding vs by (rule Max.set_eq_fold [symmetric])
  have "Max (set vs) \<in> set vs"
    using assms by (intro Max_in) simp_all
  moreover have "\<forall>x \<in> set vs. x \<le> Max (set vs)"
    by (intro ballI Max_ge) simp_all
  moreover have "np_max vs = Inr (Max (set vs))"
    using f by (simp add: vs)
  ultimately show ?thesis by blast
qed

lemma byte_isclose:
  fixes a b :: "8 word"
  shows "isclose (real (unat a)) (real (unat b)) default_rtol default_atol \<longleftrightarrow> a = b"
proof
  assume c: "isclose (real (unat a)) (real (unat b)) default_rtol default_atol"
  have "unat b < 256" using unsigned_less [of b] by simp
  then have "real (unat b) < 256" by (simp del: of_nat_unat)
  then have "default_atol + default_rtol * \<bar>real (unat b)\<bar> < 1"
    by (simp add: default_atol_def default_rtol_def del: of_nat_unat)
  with c have "\<bar>real (unat a) - real (unat b)\<bar> < 1"
    by (simp add: isclose_def del: of_nat_unat)
  then have "unat a = unat b" by linarith
  then show "a = b" by (simp add: word_unat_eq_iff)
next
  assume "a = b"
  then show "isclose (real (unat a)) (real (unat b)) default_rtol default_atol"
    by (simp add: isclose_def default_atol_def default_rtol_def)
qed

lemma pixel_isclose_eq:
  "pixel_isclose array m p \<longleftrightarrow> pixel array (fst p) (snd p) = m"
  by (simp add: pixel_isclose_def byte_isclose del: of_nat_unat)

lemma max_in_mask_first:
  assumes "\<exists>p \<in> set (grid array). search_mask p"
  shows "\<exists>m row col. max_in_mask array search_mask = Inr (m, (col, row))
      \<and> (row, col) \<in> set (grid array) \<and> search_mask (row, col) \<and> pixel array row col = m
      \<and> (\<forall>p \<in> set (grid array). search_mask p \<longrightarrow> pixel array (fst p) (snd p) \<le> m)
      \<and> (\<forall>p \<in> set (grid array). search_mask p \<and> pixel array (fst p) (snd p) = m
            \<longrightarrow> p = (row, col) \<or> row_major (row, col) p)"
proof -
  let ?subset = "map (\<lambda>p. pixel array (fst p) (snd p)) (filter search_mask (grid array))"
  let ?hits = "filter (\<lambda>p. pixel_isclose array m p \<and> search_mask p) (grid array)"
  from assms have "?subset \<noteq> []"
    by (auto simp: filter_empty_conv)
  then obtain m where m: "np_max ?subset = Inr m" "m \<in> set ?subset" "\<forall>v \<in> set ?subset. v \<le> m"
    using np_max_Inr by blast
  let ?hits = "filter (\<lambda>p. pixel_isclose array m p \<and> search_mask p) (grid array)"
  from m(2) have "?hits \<noteq> []"
    by (auto simp: filter_empty_conv pixel_isclose_eq)
  then obtain p rest where hits: "?hits = p # rest"
    by (cases ?hits) auto
  obtain row col where p: "p = (row, col)" by (cases p) auto
  have first: "p \<in> set (grid array) \<and> (pixel_isclose array m p \<and> search_mask p)
      \<and> (\<forall>q \<in> set (grid array). pixel_isclose array m q \<and> search_mask q \<longrightarrow> q = p \<or> row_major p q)"
    by (rule filter_head_first [OF sorted_grid hits])
  have res: "max_in_mask array search_mask = Inr (m, (col, row))"
    using m(1) hits p by (simp add: max_in_mask_def Let_def)
  have le: "\<forall>q \<in> set (grid array). search_mask q \<longrightarrow> pixel array (fst q) (snd q) \<le> m"
    using m(3) by auto
  show ?thesis
    using res first le unfolding p pixel_isclose_eq by auto
qed


text \<open>
  Claim C8. When some pixel of the image lies on the tolerance ring about the centre,
  \<open>find_max_on_boundary\<close> returns the largest intensity \<open>m\<close> found on the ring and the
  position \<open>(col, row)\<close> of a ring pixel with that intensity; every other ring pixel with
  intensity \<open>m\<close> comes later in row-major order (a later row, or the same row and a later
  column). Intensities are bytes, for which \<open>np.isclose\<close> with numpy's default tolerances
  is equality (\<open>byte_isclose\<close>).
\<close>

theorem find_max_on_boundary_first_maximum:
  assumes "\<exists>yy < shape_n array. \<exists>xx < shape_d array. boundary_mask center r rtol atol (yy, xx)"
  shows "\<exists>m row col. find_max_on_boundary array center r rtol atol = Inr (m, (col, row))
      \<and> row < shape_n array \<and> col < shape_d array
      \<and> boundary_mask center r rtol atol (row, col) \<and> pixel array row col = m
      \<and> (\<forall>yy < shape_n array. \<forall>xx < shape_d array. boundary_mask center r rtol atol (yy, xx) \<longrightarrow>
            pixel array yy xx \<le> m
            \<and> (pixel array yy xx = m \<longrightarrow> row < yy \<or> (row = yy \<and> col \<le> xx)))"
proof -
  let ?mask = "boundary_mask center r rtol atol"
  from assms have "\<exists>p \<in> set (grid array). ?mask p"
    by (auto simp: set_grid)
  from max_in_mask_first [OF this] obtain m row col where
    res: "max_in_mask array ?mask = Inr (m, (col, row))"
    and mem: "(row, col) \<in> set (grid array)" and on: "?mask (row, col)"
    and val: "pixel array row col = m"
    and le: "\<forall>p \<in> set (grid array). ?mask p \<longrightarrow> pixel array (fst p) (snd p) \<le> m"
    and first: "\<forall>p \<in> set (grid array). ?mask p \<and> pixel array (fst p) (snd p) = m
            \<longrightarrow> p = (row, col) \<or> row_major (row, col) p"
    by blast
  have "\<forall>yy < shape_n array. \<forall>xx < shape_d array. ?mask (yy, xx) \<longrightarrow>
            pixel array yy xx \<le> m
            \<and> (pixel array yy xx = m \<longrightarrow> row < yy \<or> (row = yy \<and> col \<le> xx))"
  proof (intro allI impI)
    fix yy xx assume b: "yy < shape_n array" "xx < shape_d array" "?mask (yy, xx)"
    then have g: "(yy, xx) \<in> set (grid array)" by (simp add: set_grid)
    have 1: "pixel array yy xx \<le> m" using le g b(3) by force
    have 2: "pixel array yy xx = m \<longrightarrow> row < yy \<or> (row = yy \<and> col \<le> xx)"
      using first g b(3) by (force simp: row_major_def)
    from 1 2 show "pixel array yy xx \<le> m
            \<and> (pixel array yy xx = m \<longrightarrow> row < yy \<or> (row = yy \<and> col \<le> xx))" ..
  qed
  with res mem on val show ?thesis
    unfolding find_max_on_boundary_def by (auto simp: set_grid)
qed

lemma demo_image_ring:
  "boundary_mask (0, 0) 1 0 0 (yy, xx) \<longleftrightarrow> real xx ^ 2 + real yy ^ 2 = 1"
  by (simp add: boundary_mask_def isclose_def distances_def)

lemma demo_image_grid: "grid demo_image = [(0, 0), (0, 1), (1, 0), (1, 1)]"
  by (simp add: grid_def demo_image_def upt_conv_Cons)

lemma demo_image_first_ring:
  "find_max_on_boundary demo_image (0, 0) 1 0 0 = Inr (7, (1, 0))"
proof -
  have c: "pixel_isclose demo_image 7 (0, 1)" "\<not> pixel_isclose demo_image 7 (0, 0)"
    by (simp_all add: pixel_isclose_eq demo_image_def)
  then show ?thesis
    by (simp add: find_max_on_boundary_def max_in_mask_def Let_def demo_image_grid demo_image_ring)
      (simp add: demo_image_def)
qed

theorem find_max_on_boundary_first_maximum_witness:
  "(\<exists>yy < shape_n demo_image. \<exists>xx < shape_d demo_image. boundary_mask (0, 0) 1 0 0 (yy, xx))
   \<and> find_max_on_boundary demo_image (0, 0) 1 0 0 = Inr (7, (1, 0))
   \<and> pixel demo_image 0 1 = 7 \<and> pixel demo_image 1 0 = 7
   \<and> (\<exists>m row col. find_max_on_boundary demo_image (0, 0) 1 0 0 = Inr (m, (col, row))
        \<and> boundary_mask (0, 0) 1 0 0 (row, col) \<and> pixel demo_image row col = m)"
proof -
  have h: "\<exists>yy < shape_n demo_image. \<exists>xx < shape_d demo_image. boundary_mask (0, 0) 1 0 0 (yy, xx)"
    by (rule exI [of _ 0], simp add: demo_image_def, rule exI [of _ 1], simp add: demo_image_ring)
  show ?thesis
    using find_max_on_boundary_first_maximum [OF h] h demo_image_first_ring
    by (simp add: demo_image_def)
qed
















text \<open>Without a contour the part after the ring loop raises, whatever the filter and
  the fit return.\<close>

lemma fit_curves_without_contour_raises:
  "\<exists>e. fit_curves gaussian_filter polyfit contour_img [] origin radii (Suc n) poly_deg
     mean_smoothing sigma points_mean = Inl e"
  by (simp add: fit_curves_def Let_def intersection_points_def upt_conv_Cons
        split: sum.splits del: upt_Suc)






section \<open>Properties of the regression over frames\<close>

text \<open>One pass through the body of the loop, for a frame whose array exists.\<close>

lemma frames_loop_step:
  assumes "a < length h"
  shows "frames_loop rfm meth deg dir dc n i ((k, a) # rest) h cts ws =
     (let left = snd (rfm (case dc of None \<Rightarrow> h ! a | Some d \<Rightarrow> decenter_points d (h ! a)) meth deg dir)
      in case frame_outcome rfm meth deg dir dc (h ! a) of
           Inr v \<Rightarrow>
             (case assign_row n v of
                Inl e \<Rightarrow> (Inl e, h @ [left])
              | Inr row \<Rightarrow> frames_loop rfm meth deg dir dc n (i + 1) rest (h @ [left]) (cts[i := row]) ws)
         | Inl LinAlgError \<Rightarrow>
             frames_loop rfm meth deg dir dc n (i + 1) rest (h @ [left])
               (cts[i := replicate n NaN]) (ws @ [Insufficient_training_points i])
         | Inl e \<Rightarrow> (Inl e, h @ [left]))"
proof -
  let ?arg = "case dc of None \<Rightarrow> h ! a | Some d \<Rightarrow> decenter_points d (h ! a)"
  let ?h2 = "case dc of None \<Rightarrow> h @ [h ! a] | Some d \<Rightarrow> isub_decenter (h @ [h ! a]) (length h) d"
  have arg: "?h2 ! length h = ?arg"
    by (cases dc) (simp_all add: isub_decenter_def)
  have upd: "?h2[length h := x] = h @ [x]" for x
    by (cases dc) (simp_all add: isub_decenter_def)
  obtain res left where r: "rfm ?arg meth deg dir = (res, left)"
    by (cases "rfm ?arg meth deg dir") auto
  have "frames_loop rfm meth deg dir dc n i ((k, a) # rest) h cts ws =
     (case res of
           Inr v \<Rightarrow>
             (case assign_row n v of
                Inl e \<Rightarrow> (Inl e, h @ [left])
              | Inr row \<Rightarrow> frames_loop rfm meth deg dir dc n (i + 1) rest (h @ [left]) (cts[i := row]) ws)
         | Inl LinAlgError \<Rightarrow>
             frames_loop rfm meth deg dir dc n (i + 1) rest (h @ [left])
               (cts[i := replicate n NaN]) (ws @ [Insufficient_training_points i])
         | Inl e \<Rightarrow> (Inl e, h @ [left]))"
    by (simp only: frames_loop.simps np_copy_def Let_def prod.case arg r upd)
  then show ?thesis
    by (simp add: frame_outcome_def r Let_def)
qed

lemma frames_loop_store:
  assumes "\<forall>f \<in> set frames. snd f < length h"
  shows "\<exists>ext. snd (frames_loop rfm meth deg dir dc n i frames h cts ws) = h @ ext"
  using assms
proof (induction frames arbitrary: h cts ws i)
  case Nil
  then show ?case by simp
next
  case (Cons f frames)
  obtain k a where f: "f = (k, a)" by (cases f) auto
  from Cons.prems have a: "a < length h" by (simp add: f)
  let ?left = "snd (rfm (case dc of None \<Rightarrow> h ! a | Some d \<Rightarrow> decenter_points d (h ! a)) meth deg dir)"
  have rest: "\<forall>f \<in> set frames. snd f < length (h @ [?left])"
    using Cons.prems by auto
  have ih: "\<exists>ext. snd (frames_loop rfm meth deg dir dc n (i + 1) frames (h @ [?left]) cts' ws') = h @ ext"
    for cts' ws'
    using Cons.IH [OF rest, of "i + 1" cts' ws'] by auto
  show ?case
    unfolding f frames_loop_step [OF a] Let_def
    using ih by (auto split: sum.splits py_error.splits)
qed


text \<open>
  Claim C6. \<open>regress_multiframe_mean\<close> leaves every array that exists before the call, the
  arrays of \<open>mean_points\<close> among them, with the contents it had, for every method, degree,
  direction and \<open>decenter\<close> (given or \<open>None\<close>), whatever \<open>regress_frame_mean\<close> does with the
  array it is passed and also when the call raises.
\<close>

theorem regress_multiframe_mean_keeps_inputs:
  assumes "\<forall>f \<in> set mean_points. snd f < length h"
  shows "\<forall>a < length h.
           snd (regress_multiframe_mean rfm mean_points regression_method poly_deg direction decenter h) ! a
             = h ! a"
proof -
  obtain ext where
    "snd (regress_multiframe_mean rfm mean_points regression_method poly_deg direction decenter h) = h @ ext"
    using frames_loop_store [OF assms]
    by (fastforce simp: regress_multiframe_mean_def Let_def)
  then show ?thesis by (simp add: nth_append)
qed

theorem regress_multiframe_mean_keeps_inputs_witness:
  "snd (regress_multiframe_mean (\<lambda>pts m d dir. (Inr [Fin 1, Fin 0], pts)) [(0, 0)] ''linear'' 2 ''either''
          (Some (1, 1)) [[(1, 1, 1), (2, 2, 2)]])
     = [[(1, 1, 1), (2, 2, 2)], [(1, 0, 0), (2, 1, 1)]]
   \<and> snd (regress_multiframe_mean (\<lambda>pts m d dir. (Inr [Fin 1, Fin 0], pts)) [(0, 0)] ''linear'' 2 ''either''
          (Some (1, 1)) [[(1, 1, 1), (2, 2, 2)]]) ! 0
     = [(1, 1, 1), (2, 2, 2)]"
proof -
  have "snd (regress_multiframe_mean (\<lambda>pts m d dir. (Inr [Fin 1, Fin 0], pts)) [(0, 0)] ''linear'' 2 ''either''
          (Some (1, 1)) [[(1, 1, 1), (2, 2, 2)]])
     = [[(1, 1, 1), (2, 2, 2)], [(1, 0, 0), (2, 1, 1)]]"
    by (simp add: regress_multiframe_mean_def Let_def np_copy_def isub_decenter_def
          decenter_points_def assign_row_def)
  moreover have "snd (regress_multiframe_mean (\<lambda>pts m d dir. (Inr [Fin 1, Fin 0], pts)) [(0, 0)] ''linear'' 2 ''either''
          (Some (1, 1)) [[(1, 1, 1), (2, 2, 2)]]) ! 0
     = [[(1, 1, 1), (2, 2, 2)]] ! 0"
    using regress_multiframe_mean_keeps_inputs
      [of "[(0, 0)]" "[[(1, 1, 1), (2, 2, 2)]]" "\<lambda>pts m d dir. (Inr [Fin 1, Fin 0], pts)"
          "''linear''" 2 "''either''" "Some (1, 1)"]
    by simp
  ultimately show ?thesis by simp
qed

lemma frames_loop_decenter:
  assumes "length h1 = length h2"
    and "\<forall>f \<in> set frames. snd f < length h1 \<and> h2 ! snd f = decenter_points d (h1 ! snd f)"
  shows "fst (frames_loop rfm meth deg dir (Some d) n i frames h1 cts ws)
       = fst (frames_loop rfm meth deg dir None n i frames h2 cts ws)"
  using assms
proof (induction frames arbitrary: h1 h2 cts ws i)
  case Nil
  then show ?case by simp
next
  case (Cons f frames)
  obtain k a where f: "f = (k, a)" by (cases f) auto
  from Cons.prems have a1: "a < length h1" and a2: "a < length h2"
    and eq: "h2 ! a = decenter_points d (h1 ! a)"
    by (simp_all add: f)
  let ?left = "snd (rfm (decenter_points d (h1 ! a)) meth deg dir)"
  have out: "frame_outcome rfm meth deg dir None (h2 ! a) = frame_outcome rfm meth deg dir (Some d) (h1 ! a)"
    by (simp add: frame_outcome_def eq)
  have rest: "\<forall>f \<in> set frames. snd f < length (h1 @ [?left])
      \<and> (h2 @ [?left]) ! snd f = decenter_points d ((h1 @ [?left]) ! snd f)"
    using Cons.prems by (auto simp: nth_append)
  have ih: "fst (frames_loop rfm meth deg dir (Some d) n (i + 1) frames (h1 @ [?left]) cts' ws')
       = fst (frames_loop rfm meth deg dir None n (i + 1) frames (h2 @ [?left]) cts' ws')" for cts' ws'
    using Cons.IH [OF _ rest, of "i + 1" cts' ws'] Cons.prems(1) by simp
  show ?case
    unfolding f frames_loop_step [OF a1] frames_loop_step [OF a2] out Let_def
    using ih by (auto simp: eq split: sum.splits py_error.splits)
qed

text \<open>
  Claim C5. Calling \<open>regress_multiframe_mean\<close> with \<open>decenter = (dx, dy)\<close> returns the same
  coefficient array (and the same warnings, or raises the same exception) as calling it
  without \<open>decenter\<close> on arrays from whose \<open>x\<close> and \<open>y\<close> columns \<open>(dx, dy)\<close> has been subtracted
  beforehand, for every method, degree and direction.
\<close>

theorem regress_multiframe_mean_decenter:
  assumes "\<forall>f \<in> set mean_points. snd f < length h"
  shows "fst (regress_multiframe_mean rfm mean_points regression_method poly_deg direction
                (Some (dx, dy)) h)
       = fst (regress_multiframe_mean rfm mean_points regression_method poly_deg direction
                None (map (decenter_points (dx, dy)) h))"
proof -
  have "\<forall>f \<in> set mean_points. snd f < length h
      \<and> map (decenter_points (dx, dy)) h ! snd f = decenter_points (dx, dy) (h ! snd f)"
    using assms by simp
  from frames_loop_decenter [OF _ this, of rfm]
  show ?thesis
    by (simp add: regress_multiframe_mean_def Let_def)
qed

lemma demo_regress_run:
  "regress_multiframe_mean demo_regress [(1, 0), (2, 1)] ''linear'' 2 ''either'' (Some (10, 10)) demo_store
     = (Inr ([[Fin 1, Fin 2], [NaN, NaN]], [Insufficient_training_points 1]),
        demo_store @ [[(1, 1, 2), (2, 3, 4)], [(1, 0, 0)]])"
  by (simp add: regress_multiframe_mean_def Let_def np_copy_def isub_decenter_def
        decenter_points_def assign_row_def demo_regress_def demo_store_def numeral_2_eq_2)

theorem regress_multiframe_mean_decenter_witness:
  "fst (regress_multiframe_mean demo_regress [(1, 0), (2, 1)] ''linear'' 2 ''either'' (Some (10, 10)) demo_store)
     = Inr ([[Fin 1, Fin 2], [NaN, NaN]], [Insufficient_training_points 1])
   \<and> fst (regress_multiframe_mean demo_regress [(1, 0), (2, 1)] ''linear'' 2 ''either'' None
            [[(1, 1, 2), (2, 3, 4)], [(1, 0, 0)]])
     = Inr ([[Fin 1, Fin 2], [NaN, NaN]], [Insufficient_training_points 1])"
proof -
  have l: "\<forall>f \<in> set [(1, 0), (2, 1)]. snd f < length demo_store"
    by (simp add: demo_store_def)
  have m: "map (decenter_points (10, 10)) demo_store = [[(1, 1, 2), (2, 3, 4)], [(1, 0, 0)]]"
    by (simp add: demo_store_def decenter_points_def)
  show ?thesis
    using regress_multiframe_mean_decenter [OF l, of demo_regress "''linear''" 2 "''either''" 10 10]
      demo_regress_run
    by (simp add: m)
qed

lemma frames_loop_rows:
  assumes "\<forall>f \<in> set frames. snd f < length h"
    and "\<forall>f \<in> set frames.
           (case frame_outcome rfm meth deg dir dc (h ! snd f) of
              Inl e \<Rightarrow> e = LinAlgError
            | Inr v \<Rightarrow> length v = n \<or> length v = 1)"
    and "i + length frames \<le> length cts"
  shows "\<exists>rows ws' h'.
           frames_loop rfm meth deg dir dc n i frames h cts ws = (Inr (rows, ws'), h')
         \<and> length rows = length cts
         \<and> (\<forall>j < i. rows ! j = cts ! j)
         \<and> (\<forall>j < length frames.
               (case frame_outcome rfm meth deg dir dc (h ! snd (frames ! j)) of
                  Inl e \<Rightarrow> rows ! (i + j) = replicate n NaN
                | Inr v \<Rightarrow> assign_row n v = Inr (rows ! (i + j))))
         \<and> set ws' = set ws \<union>
               {Insufficient_training_points (i + j) | j. j < length frames
                  \<and> isl (frame_outcome rfm meth deg dir dc (h ! snd (frames ! j)))}"
  using assms
proof (induction frames arbitrary: h cts ws i)
  case Nil
  then show ?case by simp
next
  case (Cons f frames)
  obtain k a where f: "f = (k, a)" by (cases f) auto
  let ?out = "\<lambda>h b. frame_outcome rfm meth deg dir dc (h ! b)"
  let ?left = "snd (rfm (case dc of None \<Rightarrow> h ! a | Some d \<Rightarrow> decenter_points d (h ! a)) meth deg dir)"
  let ?h = "h @ [?left]"
  from Cons.prems(1) have a: "a < length h" by (simp add: f)
  have same: "?h ! snd g = h ! snd g" if "g \<in> set frames" for g
    using Cons.prems(1) that by (simp add: nth_append)
  have same_nth: "?h ! snd (frames ! j) = h ! snd (frames ! j)" if "j < length frames" for j
    using same that by simp
  have refs: "\<forall>g \<in> set frames. snd g < length ?h"
    using Cons.prems(1) by auto
  have ok: "\<forall>g \<in> set frames.
           (case ?out ?h (snd g) of Inl e \<Rightarrow> e = LinAlgError | Inr v \<Rightarrow> length v = n \<or> length v = 1)"
    using Cons.prems(2) same by simp
  have i: "i < length cts" and len: "i + 1 + length frames \<le> length cts"
    using Cons.prems(3) by simp_all
  have head: "(case ?out h a of Inl e \<Rightarrow> e = LinAlgError | Inr v \<Rightarrow> length v = n \<or> length v = 1)"
    using Cons.prems(2) by (simp add: f)
  define cts' ws1 where
    "cts' = (case ?out h a of Inl e \<Rightarrow> cts[i := replicate n NaN]
                            | Inr v \<Rightarrow> cts[i := (if length v = n then v else replicate n (hd v))])"
    and "ws1 = (case ?out h a of Inl e \<Rightarrow> ws @ [Insufficient_training_points i] | Inr v \<Rightarrow> ws)"
  have step: "frames_loop rfm meth deg dir dc n i (f # frames) h cts ws
            = frames_loop rfm meth deg dir dc n (i + 1) frames ?h cts' ws1"
    unfolding f frames_loop_step [OF a] Let_def cts'_def ws1_def
    using head by (auto simp: assign_row_def split: sum.splits)
  have lc: "length cts' = length cts"
    by (simp add: cts'_def split: sum.splits)
  from Cons.IH [OF refs ok, of "i + 1" cts' ws1] len lc
  obtain rows ws' h' where
    res: "frames_loop rfm meth deg dir dc n (i + 1) frames ?h cts' ws1 = (Inr (rows, ws'), h')"
    and lr: "length rows = length cts'"
    and before: "\<forall>j < i + 1. rows ! j = cts' ! j"
    and each: "\<forall>j < length frames.
               (case ?out ?h (snd (frames ! j)) of
                  Inl e \<Rightarrow> rows ! (i + 1 + j) = replicate n NaN
                | Inr v \<Rightarrow> assign_row n v = Inr (rows ! (i + 1 + j)))"
    and warn: "set ws' = set ws1 \<union>
               {Insufficient_training_points (i + 1 + j) | j. j < length frames
                  \<and> isl (?out ?h (snd (frames ! j)))}"
    by auto
  have at_i: "rows ! i = cts' ! i" using before by simp
  have 1: "\<forall>j < i. rows ! j = cts ! j"
    using before by (auto simp: cts'_def split: sum.splits)
  have 2: "(case ?out h (snd ((f # frames) ! j)) of
                  Inl e \<Rightarrow> rows ! (i + j) = replicate n NaN
                | Inr v \<Rightarrow> assign_row n v = Inr (rows ! (i + j)))"
    if "j < length (f # frames)" for j
  proof (cases j)
    case 0
    then show ?thesis
      using at_i i head
      by (auto simp: f cts'_def assign_row_def split: sum.splits)
  next
    case (Suc j')
    with that have jl: "j' < length frames" by simp
    with each have "(case ?out ?h (snd (frames ! j')) of
                  Inl e \<Rightarrow> rows ! (i + 1 + j') = replicate n NaN
                | Inr v \<Rightarrow> assign_row n v = Inr (rows ! (i + 1 + j')))"
      by blast
    then show ?thesis
      unfolding same_nth [OF jl] by (simp add: Suc split: sum.splits)
  qed
  have 3: "set ws' = set ws \<union>
               {Insufficient_training_points (i + j) | j. j < length (f # frames)
                  \<and> isl (?out h (snd ((f # frames) ! j)))}" (is "_ = _ \<union> ?W")
  proof -
    have w1: "set ws1 = set ws \<union> (if isl (?out h a) then {Insufficient_training_points i} else {})"
      by (simp add: ws1_def split: sum.splits)
    have "?W = (if isl (?out h a) then {Insufficient_training_points i} else {})
        \<union> {Insufficient_training_points (i + 1 + j) | j. j < length frames
                  \<and> isl (?out h (snd (frames ! j)))}" (is "_ = ?A \<union> ?B")
    proof (intro set_eqI iffI)
      fix w assume "w \<in> ?W"
      then obtain j where j: "w = Insufficient_training_points (i + j)" "j < length (f # frames)"
        "isl (?out h (snd ((f # frames) ! j)))" by blast
      show "w \<in> ?A \<union> ?B"
      proof (cases j)
        case 0
        with j show ?thesis by (simp add: f)
      next
        case (Suc j')
        with j have "j' < length frames" "isl (?out h (snd (frames ! j')))"
          "w = Insufficient_training_points (i + 1 + j')" by simp_all
        then show ?thesis by blast
      qed
    next
      fix w assume "w \<in> ?A \<union> ?B"
      then consider "w \<in> ?A" | "w \<in> ?B" by blast
      then show "w \<in> ?W"
      proof cases
        case 1
        then have "w = Insufficient_training_points (i + 0)" "isl (?out h (snd ((f # frames) ! 0)))"
          by (simp_all add: f split: if_splits)
        then show ?thesis by (intro CollectI exI [of _ 0]) simp
      next
        case 2
        then obtain j' where "w = Insufficient_training_points (i + Suc j')" "j' < length frames"
          "isl (?out h (snd ((f # frames) ! Suc j')))" by auto
        then show ?thesis by (intro CollectI exI [of _ "Suc j'"]) simp
      qed
    qed
    moreover have "{Insufficient_training_points (i + 1 + j) | j. j < length frames
                  \<and> isl (?out ?h (snd (frames ! j)))} = ?B"
      using same_nth by auto
    ultimately show ?thesis using warn w1 by auto
  qed
  show ?case
  proof (intro exI conjI)
    show "frames_loop rfm meth deg dir dc n i (f # frames) h cts ws = (Inr (rows, ws'), h')"
      using step res by simp
    show "length rows = length cts" using lr lc by simp
    show "\<forall>j < i. rows ! j = cts ! j" by (rule 1)
    show "\<forall>j < length (f # frames).
               (case ?out h (snd ((f # frames) ! j)) of
                  Inl e \<Rightarrow> rows ! (i + j) = replicate n NaN
                | Inr v \<Rightarrow> assign_row n v = Inr (rows ! (i + j)))"
      using 2 by blast
    show "set ws' = set ws \<union>
               {Insufficient_training_points (i + j) | j. j < length (f # frames)
                  \<and> isl (?out h (snd ((f # frames) ! j)))}"
      by (rule 3)
  qed
qed

text \<open>
  Claim C3. When every per-frame fit either raises \<open>LinAlgError\<close> or returns a vector that
  fits the row, \<open>regress_multiframe_mean\<close> returns an array with one row per frame, in the
  order of the frames. The row of a frame whose fit raised is all NaN, of the width of the
  method (2 for \<open>linear\<close>, \<open>2 (poly_deg + 1)\<close> for \<open>poly_para\<close>, \<open>poly_deg + 1\<close> otherwise,
  so for \<open>poly\<close> and \<open>poly_inv\<close>), and a warning with the frame's position is emitted; the
  row of every other frame holds its fit, whatever happened to the frames before it.
\<close>

theorem regress_multiframe_mean_isolates_failures:
  fixes poly_deg :: int
  assumes "W = nat (if regression_method = ''linear'' then 2
                    else if regression_method = ''poly_para'' then 2 * (poly_deg + 1)
                    else poly_deg + 1)"
    and "0 \<le> poly_deg"
    and "\<forall>f \<in> set mean_points. snd f < length h"
    and "\<forall>f \<in> set mean_points.
           (case frame_outcome rfm regression_method poly_deg direction decenter (h ! snd f) of
              Inl e \<Rightarrow> e = LinAlgError
            | Inr v \<Rightarrow> length v = W \<or> length v = 1)"
  shows "\<exists>rows ws h'.
           regress_multiframe_mean rfm mean_points regression_method poly_deg direction decenter h
             = (Inr (rows, ws), h')
         \<and> length rows = length mean_points
         \<and> (\<forall>i < length mean_points.
               (case frame_outcome rfm regression_method poly_deg direction decenter
                       (h ! snd (mean_points ! i)) of
                  Inl e \<Rightarrow> rows ! i = replicate W NaN \<and> Insufficient_training_points i \<in> set ws
                | Inr v \<Rightarrow> assign_row W v = Inr (rows ! i)
                           \<and> Insufficient_training_points i \<notin> set ws))"
proof -
  let ?n = "if regression_method = ''poly_para'' then 2 * (poly_deg + 1)
            else if regression_method = ''linear'' then 2 else poly_deg + 1"
  let ?cts = "replicate (length mean_points) (replicate (nat ?n) (Fin 0))"
  let ?out = "\<lambda>i. frame_outcome rfm regression_method poly_deg direction decenter (h ! snd (mean_points ! i))"
  have n: "\<not> ?n < 0" "nat ?n = W"
    using assms(1,2) by auto
  have call: "regress_multiframe_mean rfm mean_points regression_method poly_deg direction decenter h
      = frames_loop rfm regression_method poly_deg direction decenter W 0 mean_points h ?cts []"
    unfolding regress_multiframe_mean_def Let_def using n by (simp only: if_False)
  have "0 + length mean_points \<le> length ?cts" by simp
  from frames_loop_rows [OF assms(3,4) this, of "[]"]
  obtain rows ws h' where
    res: "frames_loop rfm regression_method poly_deg direction decenter W 0 mean_points h ?cts []
            = (Inr (rows, ws), h')"
    and len: "length rows = length ?cts"
    and each: "\<forall>j < length mean_points.
               (case ?out j of Inl e \<Rightarrow> rows ! (0 + j) = replicate W NaN
                             | Inr v \<Rightarrow> assign_row W v = Inr (rows ! (0 + j)))"
    and warn: "set ws = set [] \<union> {Insufficient_training_points (0 + j) | j.
                  j < length mean_points \<and> isl (?out j)}"
    by blast
  have w: "Insufficient_training_points i \<in> set ws \<longleftrightarrow> isl (?out i)" if "i < length mean_points" for i
    using warn that by auto
  have "\<forall>i < length mean_points.
               (case ?out i of
                  Inl e \<Rightarrow> rows ! i = replicate W NaN \<and> Insufficient_training_points i \<in> set ws
                | Inr v \<Rightarrow> assign_row W v = Inr (rows ! i)
                           \<and> Insufficient_training_points i \<notin> set ws)"
  proof (intro allI impI)
    fix i assume i: "i < length mean_points"
    from each i have "(case ?out i of Inl e \<Rightarrow> rows ! i = replicate W NaN
                             | Inr v \<Rightarrow> assign_row W v = Inr (rows ! i))"
      by (auto split: sum.splits)
    with w [OF i] show "(case ?out i of
                  Inl e \<Rightarrow> rows ! i = replicate W NaN \<and> Insufficient_training_points i \<in> set ws
                | Inr v \<Rightarrow> assign_row W v = Inr (rows ! i)
                           \<and> Insufficient_training_points i \<notin> set ws)"
      by (cases "?out i") simp_all
  qed
  with call res len show ?thesis by simp
qed

lemma demo_regress_outcome:
  "frame_outcome demo_regress ''linear'' 2 ''either'' (Some (10, 10)) (demo_store ! 0) = Inr [Fin 1, Fin 2]"
  "frame_outcome demo_regress ''linear'' 2 ''either'' (Some (10, 10)) (demo_store ! Suc 0) = Inl LinAlgError"
  by (simp_all add: frame_outcome_def demo_regress_def demo_store_def decenter_points_def)

theorem regress_multiframe_mean_isolates_failures_witness:
  "length demo_store = 2
   \<and> frame_outcome demo_regress ''linear'' 2 ''either'' (Some (10, 10)) (demo_store ! 1)
       = Inl LinAlgError
   \<and> (\<exists>rows ws h'.
         regress_multiframe_mean demo_regress [(1, 0), (2, 1)] ''linear'' 2 ''either'' (Some (10, 10)) demo_store
           = (Inr (rows, ws), h')
       \<and> length rows = length [(1 :: int, 0 :: nat), (2, 1)]
       \<and> rows = [[Fin 1, Fin 2], [NaN, NaN]] \<and> ws = [Insufficient_training_points 1])"
proof -
  have l: "\<forall>f \<in> set [(1 :: int, 0 :: nat), (2, 1)]. snd f < length demo_store"
    by (simp add: demo_store_def)
  have ok: "\<forall>f \<in> set [(1 :: int, 0 :: nat), (2, 1)].
           (case frame_outcome demo_regress ''linear'' 2 ''either'' (Some (10, 10)) (demo_store ! snd f) of
              Inl e \<Rightarrow> e = LinAlgError
            | Inr v \<Rightarrow> length v = 2 \<or> length v = 1)"
    by (simp add: demo_regress_outcome)
  have "\<exists>rows ws h'.
         regress_multiframe_mean demo_regress [(1, 0), (2, 1)] ''linear'' 2 ''either'' (Some (10, 10)) demo_store
           = (Inr (rows, ws), h')
       \<and> length rows = length [(1 :: int, 0 :: nat), (2, 1)]"
    using regress_multiframe_mean_isolates_failures
      [of 2 "''linear''" 2 "[(1, 0), (2, 1)]" demo_store demo_regress "''either''" "Some (10, 10)", OF _ _ l ok]
    by auto
  then show ?thesis
    using demo_regress_run demo_regress_outcome(2) by (simp add: demo_store_def)
qed


section \<open>Properties of the circle and polynomial intersection\<close>

lemma as_float_py_mul: "as_float (py_mul a b) = as_float a * as_float b"
  by (cases a; cases b) simp_all

lemma as_float_py_add: "as_float (py_add a b) = as_float a + as_float b"
  by (cases a; cases b) simp_all

lemma as_float_py_sub: "as_float (py_sub a b) = as_float a - as_float b"
  by (cases a; cases b) simp_all

lemma as_float_py_sq: "as_float (py_sq a) = (as_float a)\<^sup>2"
  by (simp add: py_sq_def as_float_py_mul power2_eq_square)

lemma as_float_the_int: "is_int a \<Longrightarrow> real_of_int (the_int a) = as_float a"
  by (cases a) simp_all

lemma as_floats_np_array: "as_floats (np_array xs) = map as_float xs"
  by (simp add: np_array_def list_all_iff as_float_the_int)

lemma of_int_sum_list_real: "real_of_int (sum_list ys) = sum_list (map real_of_int ys)"
  by (induction ys) simp_all

lemma as_float_np_sum: "as_float (np_sum xs) = sum_list (map as_float xs)"
proof (cases "np_array xs")
  case (Int64 ys)
  with as_floats_np_array [of xs] show ?thesis
    by (simp add: np_sum_def of_int_sum_list_real)
next
  case (Float64 ys)
  with as_floats_np_array [of xs] show ?thesis
    by (simp add: np_sum_def)
qed

lemma n_coef_sum:
  "as_float (n_coef coef k) = (\<Sum>i\<le>k. as_float (a_i coef i) * as_float (a_i coef (k - i)))"
proof -
  have "set [0..<k + 1] = {..k}" by auto
  then show ?thesis
    by (simp add: n_coef_def as_float_np_sum comp_def as_float_py_mul
          interv_sum_list_conv_sum_set_nat del: upt_Suc set_upt)
qed

lemma polyval_a_i:
  assumes "length coef \<le> N"
  shows "polyval (map as_float coef) x = (\<Sum>i<N. as_float (a_i coef i) * x ^ i)"
proof -
  have "(\<Sum>i<N. as_float (a_i coef i) * x ^ i) = (\<Sum>i<length coef. as_float (a_i coef i) * x ^ i)"
    using assms by (intro sum.mono_neutral_right) (auto simp: a_i_def)
  also have "\<dots> = polyval (map as_float coef) x"
    by (simp add: polyval_def a_i_def)
  finally show ?thesis by simp
qed

lemma polyval_map_upt: "polyval (map g [0..<m]) x = (\<Sum>k<m. g k * x ^ k)"
  by (simp add: polyval_def)

text \<open>The array of \<open>_square_poly_coef\<close> holds the coefficients of the squared polynomial,
  whatever its dtype.\<close>

lemma polyval_square_poly_coef:
  "polyval (as_floats (square_poly_coef coef)) x = (polyval (map as_float coef) x)\<^sup>2"
proof (cases "coef = []")
  case True
  then show ?thesis by (simp add: square_poly_coef_def as_floats_np_array polyval_def)
next
  case False
  define n where "n = length coef"
  define A where "A = (\<lambda>i. as_float (a_i coef i))"
  have n: "0 < n" using False by (simp add: n_def)
  have zero: "A i = 0" if "n \<le> i" for i
    using that by (simp add: A_def a_i_def n_def)
  have "polyval (as_floats (square_poly_coef coef)) x
      = (\<Sum>k<2 * n - 1. (\<Sum>i\<le>k. A i * A (k - i)) * x ^ k)"
    by (simp add: square_poly_coef_def as_floats_np_array comp_def polyval_map_upt n_coef_sum
          n_def A_def)
  also have "\<dots> = (\<Sum>k<2 * n - 1. \<Sum>i\<le>k. (A i * x ^ i) * (A (k - i) * x ^ (k - i)))"
  proof (intro sum.cong refl)
    fix k
    have "(A i * x ^ i) * (A (k - i) * x ^ (k - i)) = A i * A (k - i) * x ^ k" if "i \<le> k" for i
    proof -
      have "x ^ k = x ^ i * x ^ (k - i)"
        using that by (simp add: power_add [symmetric])
      then show ?thesis by (simp add: mult_ac)
    qed
    then have "(\<Sum>i\<le>k. (A i * x ^ i) * (A (k - i) * x ^ (k - i))) = (\<Sum>i\<le>k. A i * A (k - i) * x ^ k)"
      by (intro sum.cong refl) simp
    then show "(\<Sum>i\<le>k. A i * A (k - i)) * x ^ k = (\<Sum>i\<le>k. (A i * x ^ i) * (A (k - i) * x ^ (k - i)))"
      by (simp add: sum_distrib_right)
  qed
  also have "\<dots> = (\<Sum>(i, j)\<in>{(i, j). i + j < 2 * n - 1}. (A i * x ^ i) * (A j * x ^ j))"
    by (rule sum.triangle_reindex [symmetric])
  also have "\<dots> = (\<Sum>(i, j)\<in>{..<n} \<times> {..<n}. (A i * x ^ i) * (A j * x ^ j))"
  proof (rule sum.mono_neutral_right)
    show "finite {(i, j). i + j < 2 * n - 1}"
      by (rule finite_subset [of _ "{..<2 * n} \<times> {..<2 * n}"]) auto
    show "{..<n} \<times> {..<n} \<subseteq> {(i, j). i + j < 2 * n - 1}"
      using n by auto
    show "\<forall>p \<in> {(i, j). i + j < 2 * n - 1} - {..<n} \<times> {..<n}.
            (case p of (i, j) \<Rightarrow> (A i * x ^ i) * (A j * x ^ j)) = 0"
    proof
      fix p assume p: "p \<in> {(i, j). i + j < 2 * n - 1} - {..<n} \<times> {..<n}"
      obtain i j where ij: "p = (i, j)" by (cases p) auto
      with p have "n \<le> i \<or> n \<le> j" by auto
      then have "A i = 0 \<or> A j = 0" using zero by blast
      then show "(case p of (i, j) \<Rightarrow> (A i * x ^ i) * (A j * x ^ j)) = 0"
        by (auto simp: ij)
    qed
  qed
  also have "\<dots> = (\<Sum>i<n. A i * x ^ i) * (\<Sum>j<n. A j * x ^ j)"
    by (simp add: sum_product sum.cartesian_product)
  also have "\<dots> = (polyval (map as_float coef) x)\<^sup>2"
    using polyval_a_i [of coef n x] by (simp add: n_def A_def power2_eq_square)
  finally show ?thesis .
qed

lemma length_square_poly_coef:
  "length (as_floats (square_poly_coef coef)) = 2 * length coef - 1"
  by (simp add: square_poly_coef_def as_floats_np_array)

lemma np_array_float64:
  assumes "c \<in> set xs" and "\<not> is_int c"
  shows "np_array xs = Float64 (map as_float xs)"
  using assms by (auto simp: np_array_def list_all_iff)

lemma n_coef_float:
  assumes "j < length coef" and "\<not> is_int (coef ! j)"
  shows "\<not> is_int (n_coef coef (2 * j))"
proof -
  let ?ps = "map (\<lambda>i. py_mul (a_i coef i) (a_i coef (2 * j - i))) [0..<2 * j + 1]"
  have "py_mul (a_i coef j) (a_i coef (2 * j - j)) \<in> set ?ps"
    by (intro image_eqI [where x = j, THEN set_map [THEN equalityD2, THEN subsetD]]) auto
  moreover have "\<not> is_int (py_mul (a_i coef j) (a_i coef (2 * j - j)))"
    using assms by (cases "coef ! j") (simp_all add: a_i_def)
  ultimately have "np_array ?ps = Float64 (map as_float ?ps)"
    by (rule np_array_float64)
  then show ?thesis
    by (simp add: n_coef_def np_sum_def)
qed

lemma square_poly_coef_float64:
  assumes "c \<in> set coef" and "\<not> is_int c"
  shows "square_poly_coef coef = Float64 (as_floats (square_poly_coef coef))"
proof -
  from assms obtain j where j: "j < length coef" "\<not> is_int (coef ! j)"
    by (auto simp: in_set_conv_nth)
  then have "n_coef coef (2 * j) \<in> set (map (n_coef coef) [0..<2 * length coef - 1])"
    by auto
  with n_coef_float [OF j]
  have "np_array (map (n_coef coef) [0..<2 * length coef - 1])
      = Float64 (map as_float (map (n_coef coef) [0..<2 * length coef - 1]))"
    by (intro np_array_float64) auto
  then show ?thesis
    by (simp add: square_poly_coef_def)
qed

lemma polyval_list_update:
  assumes "i < length xs"
  shows "polyval (xs[i := xs ! i + v]) x = polyval xs x + v * x ^ i"
proof -
  have "polyval (xs[i := xs ! i + v]) x
      = (\<Sum>j<length xs. xs ! j * x ^ j + (if j = i then v * x ^ i else 0))"
    unfolding polyval_def length_list_update
    by (intro sum.cong refl) (simp add: nth_list_update algebra_simps)
  also have "\<dots> = polyval xs x + (\<Sum>j<length xs. if j = i then v * x ^ i else 0)"
    by (simp add: sum.distrib polyval_def)
  also have "(\<Sum>j<length xs. if j = i then v * x ^ i else 0) = v * x ^ i"
    using assms by simp
  finally show ?thesis .
qed

lemma polyval_add_prefix:
  assumes "length A \<le> length F"
  shows "polyval (map (\<lambda>(c, a). c + a) (zip (take (length A) F) A) @ drop (length A) F) x
       = polyval F x + polyval A x"
proof -
  let ?G = "map (\<lambda>(c, a). c + a) (zip (take (length A) F) A) @ drop (length A) F"
  let ?g = "\<lambda>j. if j < length A then A ! j * x ^ j else 0"
  have len: "length ?G = length F"
    using assms by (simp add: min_def)
  have nth: "?G ! j = F ! j + (if j < length A then A ! j else 0)" if "j < length F" for j
    using assms that by (simp add: nth_append min_def)
  have "polyval ?G x = (\<Sum>j<length F. F ! j * x ^ j + ?g j)"
    unfolding polyval_def len
    by (intro sum.cong refl) (simp add: nth algebra_simps)
  also have "\<dots> = polyval F x + (\<Sum>j<length F. ?g j)"
    by (simp add: sum.distrib polyval_def)
  also have "(\<Sum>j<length F. ?g j) = (\<Sum>j<length A. ?g j)"
    using assms by (intro sum.mono_neutral_right) auto
  also have "\<dots> = polyval A x"
    by (simp add: polyval_def)
  finally show ?thesis .
qed

lemma polyval_scale: "polyval (map (\<lambda>c. v * c) cs) x = v * polyval cs x"
  by (simp add: polyval_def sum_distrib_left mult_ac)

lemma as_floats_scalar_times:
  "as_floats (scalar_times v A) = map (\<lambda>c. as_float v * c) (as_floats A)"
  by (cases v; cases A) (simp_all add: comp_def)


text \<open>
  When one coefficient is a Python float, every array is \<open>float64\<close> and \<open>F_coef\<close> holds the
  coefficients of \<open>F\<close>: three for a constant \<open>y\<close>, \<open>2 n + 1\<close> for \<open>y\<close> of degree \<open>n \<ge> 1\<close>.
\<close>

lemma F_coef_float_coefficient:
  assumes "c \<in> set poly_coef" and "\<not> is_int c"
  shows "\<exists>F. F_coef r x0 y0 poly_coef = Inr F
     \<and> length (as_floats F) = (if length poly_coef = 1 then 3 else 2 * length poly_coef - 1)
     \<and> (\<forall>x. polyval (as_floats F) x
            = (x - as_float x0)\<^sup>2 + (polyval (map as_float poly_coef) x - as_float y0)\<^sup>2
              - (as_float r)\<^sup>2)"
proof (cases "length poly_coef = 1")
  case True
  then obtain a where a: "poly_coef = [a]"
    by (cases poly_coef) auto
  let ?F = "np_array [py_sub (py_add (py_sq x0) (py_sq (py_sub y0 a))) (py_sq r),
                      py_mul (PyInt (- 2)) x0, PyInt 1]"
  have "polyval (as_floats ?F) x
      = (x - as_float x0)\<^sup>2 + (polyval (map as_float [a]) x - as_float y0)\<^sup>2 - (as_float r)\<^sup>2" for x
    by (simp add: as_floats_np_array as_float_py_sub as_float_py_add as_float_py_sq
          as_float_py_mul polyval_def lessThan_Suc numeral_3_eq_3 power2_eq_square algebra_simps)
  moreover have "length (as_floats ?F) = 3"
    by (simp add: as_floats_np_array)
  ultimately show ?thesis
    by (simp add: F_coef_def a)
next
  case False
  with assms(1) have n: "2 \<le> length poly_coef"
    by (cases poly_coef) (auto simp: Suc_le_eq)
  define S where "S = as_floats (square_poly_coef poly_coef)"
  define A where "A = scalar_times (py_mul (PyInt (- 2)) y0) (np_array poly_coef)"
  define F1 where "F1 = map (\<lambda>(c, a). c + a) (zip (take (length (as_floats A)) S) (as_floats A))
                        @ drop (length (as_floats A)) S"
  define F2 where "F2 = F1[0 := F1 ! 0 + as_float (py_sub (py_add (py_sq x0) (py_sq y0)) (py_sq r))]"
  define F3 where "F3 = F2[1 := F2 ! 1 + as_float (py_mul (PyInt (- 2)) x0)]"
  define F4 where "F4 = F3[2 := F3 ! 2 + as_float (PyInt 1)]"
  have S: "square_poly_coef poly_coef = Float64 S"
    unfolding S_def using assms by (rule square_poly_coef_float64)
  have A: "as_floats A = map (\<lambda>c. (- 2 * as_float y0) * c) (map as_float poly_coef)"
    by (simp add: A_def as_floats_scalar_times as_floats_np_array as_float_py_mul)
  have lS: "length S = 2 * length poly_coef - 1"
    by (simp add: S_def length_square_poly_coef)
  have le: "length (as_floats A) \<le> length S"
    using n by (simp add: A lS)
  have l1: "length F1 = 2 * length poly_coef - 1"
    using le by (simp add: F1_def lS min_def)
  then have l: "0 < length F1" "1 < length F2" "2 < length F3" "length F4 = 2 * length poly_coef - 1"
    using n by (simp_all add: F2_def F3_def F4_def)
  have a0: "iadd_prefix (Float64 S) A = Inr (Float64 F1)"
    by (simp add: F1_def)
  have a1: "iadd_at (Float64 F1) 0 (py_sub (py_add (py_sq x0) (py_sq y0)) (py_sq r))
              = Inr (Float64 F2)"
    using l(1) by (simp add: F2_def)
  have a2: "iadd_at (Float64 F2) 1 (py_mul (PyInt (- 2)) x0) = Inr (Float64 F3)"
    using l(2) by (simp add: F3_def)
  have a3: "iadd_at (Float64 F3) 2 (PyInt 1) = Inr (Float64 F4)"
    using l(3) by (simp add: F4_def)
  have F: "F_coef r x0 y0 poly_coef = Inr (Float64 F4)"
    unfolding F_coef_def Let_def A_def [symmetric]
    by (simp only: False if_False S a0 a1 a2 a3 sum.case)
  have "polyval F4 x
      = (x - as_float x0)\<^sup>2 + (polyval (map as_float poly_coef) x - as_float y0)\<^sup>2
        - (as_float r)\<^sup>2" for x
  proof -
    have "polyval S x = (polyval (map as_float poly_coef) x)\<^sup>2"
      by (simp add: S_def polyval_square_poly_coef)
    moreover have "polyval F1 x = polyval S x + polyval (as_floats A) x"
      unfolding F1_def using le by (rule polyval_add_prefix)
    moreover have "polyval (as_floats A) x = (- 2 * as_float y0) * polyval (map as_float poly_coef) x"
      unfolding A by (rule polyval_scale)
    moreover have "polyval F2 x = polyval F1 x
        + as_float (py_sub (py_add (py_sq x0) (py_sq y0)) (py_sq r)) * x ^ 0"
      unfolding F2_def using l(1) by (intro polyval_list_update)
    moreover have "polyval F3 x = polyval F2 x + as_float (py_mul (PyInt (- 2)) x0) * x ^ 1"
      unfolding F3_def using l(2) by (intro polyval_list_update)
    moreover have "polyval F4 x = polyval F3 x + as_float (PyInt 1) * x ^ 2"
      unfolding F4_def using l(3) by (intro polyval_list_update)
    ultimately show ?thesis
      by (simp add: as_float_py_sub as_float_py_add as_float_py_sq as_float_py_mul
            power2_eq_square algebra_simps)
  qed
  with F l(4) False show ?thesis by simp
qed

lemma square_poly_coef_line:
  "square_poly_coef [PyInt 0, PyInt 1] = Int64 [0, 0, 1]"
  by (simp add: square_poly_coef_def n_coef_def a_i_def np_sum_def np_array_def upt_conv_Cons)

text \<open>
  Claim C9: \<open>circle_poly_intersection\<close> returns the pairs \<open>(x, y(x))\<close> for the real roots
  \<open>x\<close> of \<open>F(x) = (x - x0)\<^sup>2 + (y(x) - y0)\<^sup>2 - r\<^sup>2\<close>, so that every returned point lies on
  the curve and on the circle. At the call \<open>circle_poly_intersection(2.5, 0, 0, [0, 1])\<close>,
  the line \<open>y = x\<close> and the circle of radius \<open>2.5\<close> about the origin, the coefficients are
  Python ints: \<open>_square_poly_coef\<close> returns the \<open>int64\<close> array \<open>[0, 0, 1]\<close>, and
  \<open>F_coef[0] += -6.25\<close> stores \<open>-6\<close> in it. The roots searched are those of \<open>2 x\<^sup>2 - 6\<close>
  where \<open>F\<close> is \<open>2 x\<^sup>2 - 6.25\<close>; with these roots the points returned are
  \<open>(- sqrt 3, - sqrt 3)\<close> and \<open>(sqrt 3, sqrt 3)\<close>, which are on the line and not on the circle, and
  \<open>sqrt 3\<close> is not a root of \<open>F\<close>. With \<open>y0 = 0.5\<close> in place of \<open>0\<close> the slice update adds a
  \<open>float64\<close> array to the \<open>int64\<close> array and raises.
\<close>

theorem circle_poly_intersection_int_coefficients:
  "square_poly_coef [PyInt 0, PyInt 1] = Int64 [0, 0, 1]
   \<and> F_coef (PyFloat (5 / 2)) (PyInt 0) (PyInt 0) [PyInt 0, PyInt 1] = Inr (Int64 [- 6, 0, 2])
   \<and> cpolyval (as_floats (Int64 [- 6, 0, 2])) (- complex_of_real (sqrt 3)) = 0
   \<and> cpolyval (as_floats (Int64 [- 6, 0, 2])) (complex_of_real (sqrt 3)) = 0
   \<and> circle_poly_intersection demo_polyroots (PyFloat (5 / 2)) (PyInt 0) (PyInt 0)
         [PyInt 0, PyInt 1]
       = Inr [(- sqrt 3, - sqrt 3), (sqrt 3, sqrt 3)]
   \<and> (sqrt 3 - 0)\<^sup>2 + (sqrt 3 - 0)\<^sup>2 \<noteq> (5 / 2)\<^sup>2
   \<and> (sqrt 3 - 0)\<^sup>2 + (polyval [0, 1] (sqrt 3) - 0)\<^sup>2 - (5 / 2)\<^sup>2 \<noteq> 0
   \<and> F_coef (PyFloat (5 / 2)) (PyInt 0) (PyFloat (1 / 2)) [PyInt 0, PyInt 1] = Inl TypeError"
proof -
  have F: "F_coef (PyFloat (5 / 2)) (PyInt 0) (PyInt 0) [PyInt 0, PyInt 1] = Inr (Int64 [- 6, 0, 2])"
    by (simp add: F_coef_def square_poly_coef_line np_array_def py_sq_def c_trunc_def
          power2_eq_square)
  have E: "F_coef (PyFloat (5 / 2)) (PyInt 0) (PyFloat (1 / 2)) [PyInt 0, PyInt 1] = Inl TypeError"
    by (simp add: F_coef_def square_poly_coef_line np_array_def py_sq_def)
  have r: "cpolyval (as_floats (Int64 [- 6, 0, 2])) (- complex_of_real (sqrt 3)) = 0"
    "cpolyval (as_floats (Int64 [- 6, 0, 2])) (complex_of_real (sqrt 3)) = 0"
    by (simp_all add: cpolyval_def lessThan_Suc numeral_3_eq_3 power2_eq_square
          flip: of_real_mult)
  have p: "polyval [0, 1] (sqrt 3) = sqrt 3"
    by (simp add: polyval_def lessThan_Suc numeral_2_eq_2)
  have c: "circle_poly_intersection demo_polyroots (PyFloat (5 / 2)) (PyInt 0) (PyInt 0)
         [PyInt 0, PyInt 1] = Inr [(- sqrt 3, - sqrt 3), (sqrt 3, sqrt 3)]"
    by (simp add: circle_poly_intersection_def F demo_polyroots_def polyval_def lessThan_Suc
          numeral_2_eq_2)
  from F E r c p square_poly_coef_line show ?thesis
    by (simp add: power2_eq_square)
qed

end
